theory Spec2Isabelle
  imports Complex_Main "HOL-Library.Sublist" "HOL-Library.Char_ord" "HOL-Library.List_Lexorder"
    "HOL-Library.Multiset"
begin

section \<open>Python strings\<close>

text \<open>
  The three scripts of the repository work on the text of log files, OOV word lists and
  TextGrid files. A Python \<open>str\<close> is a sequence of Unicode code points: it is modelled as
  a list of integers, the values of \<open>ord\<close>. The literals of the source are written with
  \<open>str\<close>, and a single character with \<open>cp\<close>.
\<close>

type_synonym pystr = "int list"

definition cp :: "char \<Rightarrow> int" where
  "cp c = of_char c"

definition str :: "string \<Rightarrow> pystr" where
  "str s = map cp s"

text \<open>
  The whitespace of \<open>str.strip\<close>, \<open>str.split\<close>, \<open>str.isspace\<close> and of \<open>\s\<close> in a pattern
  on \<open>str\<close>: the characters U+0009 to U+000D, U+001C to U+0020, U+0085, U+00A0, U+1680,
  U+2000 to U+200A, U+2028, U+2029, U+202F, U+205F and U+3000.
\<close>

definition isspace :: "int \<Rightarrow> bool" where
  "isspace c \<longleftrightarrow>
     (0x09 \<le> c \<and> c \<le> 0x0D) \<or> (0x1C \<le> c \<and> c \<le> 0x20) \<or> c = 0x85 \<or> c = 0xA0 \<or>
     c = 0x1680 \<or> (0x2000 \<le> c \<and> c \<le> 0x200A) \<or> c = 0x2028 \<or> c = 0x2029 \<or>
     c = 0x202F \<or> c = 0x205F \<or> c = 0x3000"

text \<open>
  The line boundaries of \<open>str.splitlines\<close>, besides the pair CR LF: U+000A to U+000D,
  U+001C to U+001E, U+0085, U+2028 and U+2029.
\<close>

definition islinebreak :: "int \<Rightarrow> bool" where
  "islinebreak c \<longleftrightarrow>
     (0x0A \<le> c \<and> c \<le> 0x0D) \<or> (0x1C \<le> c \<and> c \<le> 0x1E) \<or> c = 0x85 \<or>
     c = 0x2028 \<or> c = 0x2029"

text \<open>
  The other character classes and the case mappings are those of the Unicode database of
  the interpreter. They are a parameter of the model, a record of tables:
  \<^item> \<open>isdigit\<close> and \<open>isalnum\<close> are \<open>c.isdigit()\<close> and \<open>c.isalnum()\<close> on a character;
  \<^item> \<open>is_upper\<close>, \<open>is_lower\<close> and \<open>is_title\<close> say that a character is an uppercase, a
    lowercase or a titlecase letter;
  \<^item> \<open>lower\<close> is \<open>s.lower()\<close> on a string (it is not a map over the characters: a
    character may become several, and a capital sigma depends on its place);
  \<^item> \<open>ignorecase p c\<close> says that the character \<open>p\<close> of a pattern compiled with
    \<open>re.IGNORECASE\<close> matches the character \<open>c\<close> of the text.
\<close>

record tables =
  isdigit :: "int \<Rightarrow> bool"
  isalnum :: "int \<Rightarrow> bool"
  is_upper :: "int \<Rightarrow> bool"
  is_lower :: "int \<Rightarrow> bool"
  is_title :: "int \<Rightarrow> bool"
  lower :: "pystr \<Rightarrow> pystr"
  ignorecase :: "int \<Rightarrow> int \<Rightarrow> bool"

definition isupper :: "tables \<Rightarrow> pystr \<Rightarrow> bool" where
  \<comment> \<open>\<open>s.isupper()\<close>: no character is a lowercase or a titlecase letter, and at least one
      is an uppercase letter\<close>
  "isupper T s \<longleftrightarrow> \<not> list_ex (\<lambda>c. is_lower T c \<or> is_title T c) s \<and> list_ex (is_upper T) s"

text \<open>
  What the proofs use of the tables of Python. On the ASCII characters, below 128, the
  digits are 0 to 9, the uppercase letters A to Z, the lowercase letters a to z, no
  character is a titlecase letter, the alphanumeric characters are the digits and the
  letters, \<open>lower\<close> maps A to Z to a to z and nothing else, and two ASCII characters match
  without their case when their lower cases are equal. And no whitespace character is
  alphanumeric.
\<close>

definition ascii_lower :: "int \<Rightarrow> int" where
  "ascii_lower c = (if 0x41 \<le> c \<and> c \<le> 0x5A then c + 0x20 else c)"

definition ascii_isdigit :: "int \<Rightarrow> bool" where
  "ascii_isdigit c \<longleftrightarrow> 0x30 \<le> c \<and> c \<le> 0x39"

definition ascii_isupper :: "int \<Rightarrow> bool" where
  "ascii_isupper c \<longleftrightarrow> 0x41 \<le> c \<and> c \<le> 0x5A"

definition ascii_islower :: "int \<Rightarrow> bool" where
  "ascii_islower c \<longleftrightarrow> 0x61 \<le> c \<and> c \<le> 0x7A"

definition ascii_isalnum :: "int \<Rightarrow> bool" where
  "ascii_isalnum c \<longleftrightarrow> ascii_isdigit c \<or> ascii_isupper c \<or> ascii_islower c"

definition isascii :: "pystr \<Rightarrow> bool" where
  \<comment> \<open>\<open>s.isascii()\<close>\<close>
  "isascii s \<longleftrightarrow> list_all (\<lambda>c. 0 \<le> c \<and> c < 0x80) s"

definition python_tables :: "tables \<Rightarrow> bool" where
  "python_tables T \<longleftrightarrow>
     (\<forall>c. 0 \<le> c \<and> c < 0x80 \<longrightarrow>
        isdigit T c = ascii_isdigit c \<and> isalnum T c = ascii_isalnum c \<and>
        is_upper T c = ascii_isupper c \<and> is_lower T c = ascii_islower c \<and> \<not> is_title T c) \<and>
     (\<forall>s. isascii s \<longrightarrow> lower T s = map ascii_lower s) \<and>
     (\<forall>p c. 0 \<le> p \<and> p < 0x80 \<and> 0 \<le> c \<and> c < 0x80 \<longrightarrow>
        ignorecase T p c = (ascii_lower p = ascii_lower c)) \<and>
     (\<forall>c. isspace c \<longrightarrow> \<not> isalnum T c)"

text \<open>
  The tables of the examples: those of Python on the ASCII characters, with no other
  character in any class. On a text of ASCII characters they are the tables of Python.
\<close>

definition ascii_tables :: tables where
  "ascii_tables =
     \<lparr>isdigit = ascii_isdigit, isalnum = ascii_isalnum, is_upper = ascii_isupper,
      is_lower = ascii_islower, is_title = (\<lambda>c. False), lower = map ascii_lower,
      ignorecase = (\<lambda>p c. ascii_lower p = ascii_lower c)\<rparr>"

fun startswith :: "'a list \<Rightarrow> 'a list \<Rightarrow> bool" where
  \<comment> \<open>\<open>s.startswith(p)\<close>, with the pattern first\<close>
  "startswith [] s = True"
| "startswith (p # ps) [] = False"
| "startswith (p # ps) (c # cs) = (p = c \<and> startswith ps cs)"

fun contains :: "'a list \<Rightarrow> 'a list \<Rightarrow> bool" where
  \<comment> \<open>\<open>p in s\<close> on strings: \<open>p\<close> occurs in \<open>s\<close> as a contiguous substring\<close>
  "contains p [] = (p = [])"
| "contains p (c # cs) = (startswith p (c # cs) \<or> contains p cs)"

definition strip_chars :: "(int \<Rightarrow> bool) \<Rightarrow> pystr \<Rightarrow> pystr" where
  "strip_chars P s = rev (dropWhile P (rev (dropWhile P s)))"

definition strip :: "pystr \<Rightarrow> pystr" where
  \<comment> \<open>\<open>s.strip()\<close>\<close>
  "strip s = strip_chars isspace s"

definition strip_quote :: "pystr \<Rightarrow> pystr" where
  \<comment> \<open>\<open>s.strip('"')\<close>\<close>
  "strip_quote s = strip_chars (\<lambda>c. c = 0x22) s"

fun split_on :: "int \<Rightarrow> pystr \<Rightarrow> pystr list" where
  \<comment> \<open>\<open>s.split(sep)\<close> for a separator of one character: every occurrence splits, and the
      result always has at least one element\<close>
  "split_on sep [] = [[]]"
| "split_on sep (c # cs) =
     (if c = sep then [] # split_on sep cs
      else (case split_on sep cs of
              [] \<Rightarrow> [[c]]
            | p # ps \<Rightarrow> (c # p) # ps))"

fun split_once :: "int \<Rightarrow> pystr \<Rightarrow> pystr list" where
  \<comment> \<open>\<open>s.split(sep, 1)\<close>: only the first occurrence splits\<close>
  "split_once sep [] = [[]]"
| "split_once sep (c # cs) =
     (if c = sep then [[], cs]
      else (case split_once sep cs of
              [] \<Rightarrow> [[c]]
            | p # ps \<Rightarrow> (c # p) # ps))"

fun split_ws_aux :: "pystr \<Rightarrow> pystr \<Rightarrow> pystr list" where
  "split_ws_aux cur [] = (if cur = [] then [] else [rev cur])"
| "split_ws_aux cur (c # cs) =
     (if isspace c then (if cur = [] then split_ws_aux [] cs else rev cur # split_ws_aux [] cs)
      else split_ws_aux (c # cur) cs)"

definition split_ws :: "pystr \<Rightarrow> pystr list" where
  \<comment> \<open>\<open>s.split()\<close>: the maximal runs of characters that are not whitespace\<close>
  "split_ws s = split_ws_aux [] s"

fun splitlines_aux :: "pystr \<Rightarrow> pystr \<Rightarrow> pystr list" where
  "splitlines_aux cur [] = (if cur = [] then [] else [rev cur])"
| "splitlines_aux cur (c # cs) =
     (if c = 0x0D then
        (case cs of
           [] \<Rightarrow> [rev cur]
         | d # ds \<Rightarrow> if d = 0x0A then rev cur # splitlines_aux [] ds
                     else rev cur # splitlines_aux [] cs)
      else if islinebreak c then rev cur # splitlines_aux [] cs
      else splitlines_aux (c # cur) cs)"

definition splitlines :: "pystr \<Rightarrow> pystr list" where
  \<comment> \<open>\<open>s.splitlines()\<close>: the lines without their line ends; CR LF is one line end, and
      a line end at the very end of the text opens no further line\<close>
  "splitlines s = splitlines_aux [] s"

datatype py_error = IndexError | ValueError | OSError | UnicodeDecodeError

definition index :: "'a list \<Rightarrow> nat \<Rightarrow> py_error + 'a" where
  \<comment> \<open>\<open>xs[i]\<close> for an index that is not negative\<close>
  "index xs i = (if i < length xs then Inr (xs ! i) else Inl IndexError)"

section \<open>analyze\_textgrids.py\<close>

text \<open>
  A Python \<open>float\<close> is a finite number, an infinity or a NaN. The builtin \<open>float(s)\<close>
  is a parameter \<open>float_of\<close> of the model: it yields \<open>None\<close> where Python raises
  \<open>ValueError\<close>.
\<close>

datatype pyfloat = Finite real | PosInf | NegInf | NaN

record textgrid_stats =
  filename :: pystr
  total_duration :: pyfloat
  interval_count :: int
  word_count :: int
  phone_count :: int
  empty_intervals :: int
  has_errors :: bool

definition basename :: "pystr \<Rightarrow> pystr" where
  \<comment> \<open>\<open>os.path.basename\<close>: what follows the last slash\<close>
  "basename p = rev (takeWhile (\<lambda>c. c \<noteq> (cp CHR ''/'')) (rev p))"

definition initial_stats :: "pystr \<Rightarrow> textgrid_stats" where
  "initial_stats filepath =
     \<lparr>filename = basename filepath, total_duration = Finite 0, interval_count = 0,
      word_count = 0, phone_count = 0, empty_intervals = 0, has_errors = False\<rparr>"

text \<open>
  The first loop of \<open>read_textgrid\<close>:
  \<^verbatim>\<open>
  for line in lines:
      if 'xmax' in line and '=' in line:
          try:
              stats['total_duration'] = float(line.split('=')[1].strip())
              break
          except (ValueError, IndexError):
              pass
  \<close>
\<close>

fun find_xmax :: "(pystr \<Rightarrow> pyfloat option) \<Rightarrow> pystr list \<Rightarrow> textgrid_stats \<Rightarrow> textgrid_stats" where
  "find_xmax float_of [] stats = stats"
| "find_xmax float_of (line # lines) stats =
     (if contains (str ''xmax'') line \<and> contains (str ''='') line then
        (case index (split_on (cp CHR ''='') line) 1 of
           Inl e \<Rightarrow> find_xmax float_of lines stats
         | Inr field \<Rightarrow>
             (case float_of (strip field) of
                None \<Rightarrow> find_xmax float_of lines stats
              | Some v \<Rightarrow> stats\<lparr>total_duration := v\<rparr>))
      else find_xmax float_of lines stats)"

text \<open>
  The body of the second loop, on the current tier and the statistics:
  \<^verbatim>\<open>
  line = line.strip()
  if 'name =' in line:
      if '"words"' in line or "'words'" in line:
          current_tier = 'words'
      elif '"phones"' in line or "'phones'" in line:
          current_tier = 'phones'
      else:
          current_tier = 'unknown'
  if 'text =' in line:
      try:
          text = line.split('=', 1)[1].strip().strip('"').strip()
          stats['interval_count'] += 1
          if not text or text == '':
              stats['empty_intervals'] += 1
          else:
              if current_tier == 'words':
                  stats['word_count'] += 1
              elif current_tier == 'phones':
                  stats['phone_count'] += 1
      except IndexError:
          pass
  \<close>
\<close>

definition detect_tier :: "pystr option \<Rightarrow> pystr \<Rightarrow> pystr option" where
  \<open>detect_tier current_tier line =
     (if contains (str ''name ='') line then
        (if contains (str ''"words"'') line \<or> contains (0x27 # (str ''words'') @ [0x27]) line
         then Some (str ''words'')
         else if contains (str ''"phones"'') line \<or> contains (0x27 # (str ''phones'') @ [0x27]) line
         then Some (str ''phones'')
         else Some (str ''unknown''))
      else current_tier)\<close>

definition count_interval :: "pystr option \<Rightarrow> pystr \<Rightarrow> textgrid_stats \<Rightarrow> textgrid_stats" where
  "count_interval current_tier line stats =
     (if contains (str ''text ='') line then
        (case index (split_once (cp CHR ''='') line) 1 of
           Inl e \<Rightarrow> stats
         | Inr field \<Rightarrow>
             (let text = strip (strip_quote (strip field));
                  stats = stats\<lparr>interval_count := interval_count stats + 1\<rparr>
              in if text = [] then stats\<lparr>empty_intervals := empty_intervals stats + 1\<rparr>
                 else if current_tier = Some (str ''words'')
                 then stats\<lparr>word_count := word_count stats + 1\<rparr>
                 else if current_tier = Some (str ''phones'')
                 then stats\<lparr>phone_count := phone_count stats + 1\<rparr>
                 else stats))
      else stats)"

definition scan_line :: "pystr option \<times> textgrid_stats \<Rightarrow> pystr \<Rightarrow> pystr option \<times> textgrid_stats" where
  "scan_line st raw =
     (let line = strip raw;
          current_tier = detect_tier (fst st) line
      in (current_tier, count_interval current_tier line (snd st)))"

definition scan_lines :: "pystr list \<Rightarrow> textgrid_stats \<Rightarrow> textgrid_stats" where
  "scan_lines lines stats = snd (foldl scan_line (None, stats) lines)"

text \<open>
  \<open>read_textgrid\<close> on the outcome of opening and reading the file: \<open>Inl e\<close> when that
  raised (the file is absent or unreadable; bytes that are not UTF-8 are dropped and raise
  nothing), \<open>Inr content\<close> otherwise. Any exception sets \<open>has_errors\<close>.
\<close>

definition read_textgrid :: "(pystr \<Rightarrow> pyfloat option) \<Rightarrow> pystr \<Rightarrow> py_error + pystr \<Rightarrow> textgrid_stats" where
  "read_textgrid float_of filepath file =
     (case file of
        Inl e \<Rightarrow> (initial_stats filepath)\<lparr>has_errors := True\<rparr>
      | Inr content \<Rightarrow>
          (let lines = splitlines content
           in scan_lines lines (find_xmax float_of lines (initial_stats filepath))))"

section \<open>metrics.py\<close>

subsection \<open>parse\_validation\_log\<close>

record validation_stats =
  oov_count :: int
  oov_words :: "pystr set"
  total_utterances :: int
  error_count :: int

definition initial_validation_stats :: validation_stats where
  "initial_validation_stats =
     \<lparr>oov_count = 0, oov_words = {}, total_utterances = 0, error_count = 0\<rparr>"

text \<open>
  \<^verbatim>\<open>
  if 'OOV' in line or 'oov' in line.lower():
      stats['oov_count'] += 1
  if 'not found in dictionary' in line.lower():
      parts = line.split()
      for i, part in enumerate(parts):
          if part.lower() == 'not' and i > 0:
              stats['oov_words'].add(parts[i-1])
  \<close>
\<close>

definition count_oov :: "tables \<Rightarrow> pystr \<Rightarrow> validation_stats \<Rightarrow> validation_stats" where
  "count_oov T line stats =
     (if contains (str ''OOV'') line \<or> contains (str ''oov'') (lower T line)
      then stats\<lparr>oov_count := oov_count stats + 1\<rparr>
      else stats)"

definition collect_oov_words :: "tables \<Rightarrow> pystr \<Rightarrow> validation_stats \<Rightarrow> validation_stats" where
  "collect_oov_words T line stats =
     (if contains (str ''not found in dictionary'') (lower T line) then
        (let parts = split_ws line
         in fold (\<lambda>i st. if lower T (parts ! i) = (str ''not'') \<and> 0 < i
                         then st\<lparr>oov_words := insert (parts ! (i - 1)) (oov_words st)\<rparr>
                         else st)
                 [0..<length parts] stats)
      else stats)"

text \<open>
  \<^verbatim>\<open>
  line_lower = line.lower()
  if 'error' in line_lower:
      if any(phrase in line_lower for phrase in [
          'no error', 'there were no', '0 error', 'without error',
          'error read', 'read error', 'no issues'
      ]):
          continue
      if any(phrase in line_lower for phrase in [
          ' error:', 'error occurred', 'failed', 'exception',
          'traceback', 'error -'
      ]):
          stats['error_count'] += 1
  \<close>
  The \<open>continue\<close> is the last statement of the loop body that can run, so it leaves the
  statistics as they are.
\<close>

definition count_error :: "tables \<Rightarrow> pystr \<Rightarrow> validation_stats \<Rightarrow> validation_stats" where
  "count_error T line stats =
     (let line_lower = lower T line
      in if contains (str ''error'') line_lower then
           (if list_ex (\<lambda>phrase. contains phrase line_lower)
                 [(str ''no error''), (str ''there were no''), (str ''0 error''), (str ''without error''),
                  (str ''error read''), (str ''read error''), (str ''no issues'')]
            then stats
            else if list_ex (\<lambda>phrase. contains phrase line_lower)
                 [(str '' error:''), (str ''error occurred''), (str ''failed''), (str ''exception''),
                  (str ''traceback''), (str ''error -'')]
            then stats\<lparr>error_count := error_count stats + 1\<rparr>
            else stats)
         else stats)"

definition validation_line :: "tables \<Rightarrow> validation_stats \<Rightarrow> pystr \<Rightarrow> validation_stats" where
  "validation_line T stats line =
     count_error T line (collect_oov_words T line (count_oov T line stats))"

text \<open>
  The log file is \<open>None\<close> when it does not exist, \<open>Some (Inl e)\<close> when opening or
  reading it raised (the warning is printed and the statistics are still the initial
  ones), and \<open>Some (Inr content)\<close> otherwise.
\<close>

definition parse_validation_log :: "tables \<Rightarrow> (py_error + pystr) option \<Rightarrow> validation_stats" where
  "parse_validation_log T log_file =
     (case log_file of
        None \<Rightarrow> initial_validation_stats
      | Some (Inl e) \<Rightarrow> initial_validation_stats
      | Some (Inr content) \<Rightarrow>
          foldl (validation_line T) initial_validation_stats (splitlines content))"

section \<open>analyze\_oov.py\<close>

subsection \<open>extract\_oov\_words\_from\_log\<close>

text \<open>
  The four patterns have one shape, a literal text followed by \<open>\s*(\w+)\<close>, and are
  matched with \<open>re.IGNORECASE\<close>. \<open>\s\<close> is the whitespace of \<open>isspace\<close> and \<open>\w\<close> is an
  alphanumeric character or the underscore. Both repetitions are greedy, and giving back
  part of the whitespace never helps, since no character is both whitespace and a word
  character; so a match at a position is: the literal, all the whitespace that follows,
  and the longest run of word characters after it, which must not be empty.
\<close>

definition isword :: "tables \<Rightarrow> int \<Rightarrow> bool" where
  "isword T c \<longleftrightarrow> isalnum T c \<or> c = cp CHR ''_''"

fun match_literal :: "tables \<Rightarrow> pystr \<Rightarrow> pystr \<Rightarrow> pystr option" where
  \<comment> \<open>the literal at the start of the text, its characters matched without their case; the
      result is what follows it\<close>
  "match_literal T [] s = Some s"
| "match_literal T (p # ps) [] = None"
| "match_literal T (p # ps) (c # cs) =
     (if ignorecase T p c then match_literal T ps cs else None)"

definition match_at :: "tables \<Rightarrow> pystr \<Rightarrow> pystr \<Rightarrow> (pystr \<times> pystr) option" where
  \<comment> \<open>a match of \<open>literal\s*(\w+)\<close> at the start of the text: the group and the text after
      the match\<close>
  "match_at T literal s =
     (case match_literal T literal s of
        None \<Rightarrow> None
      | Some r \<Rightarrow>
          (let r = dropWhile isspace r; w = takeWhile (isword T) r
           in if w = [] then None else Some (w, dropWhile (isword T) r)))"

lemma match_literal_length: "match_literal T literal s = Some r \<Longrightarrow> length r \<le> length s"
  by (induction T literal s rule: match_literal.induct) (auto split: if_splits)

lemma match_at_shorter:
  assumes "match_at T literal s = Some (w, rest)"
  shows "length rest < length s"
proof -
  from assms obtain r where r: "match_literal T literal s = Some r"
    and w: "takeWhile (isword T) (dropWhile isspace r) \<noteq> []"
    and rest: "rest = dropWhile (isword T) (dropWhile isspace r)"
    by (auto simp: match_at_def Let_def split: option.splits if_splits)
  have "length (takeWhile (isword T) (dropWhile isspace r)) + length rest =
      length (dropWhile isspace r)"
    unfolding rest by (metis length_append takeWhile_dropWhile_id)
  moreover have "0 < length (takeWhile (isword T) (dropWhile isspace r))"
    using w by simp
  moreover have "length (dropWhile isspace r) \<le> length r"
    by (rule length_dropWhile_le)
  ultimately show ?thesis
    using match_literal_length [OF r] by linarith
qed

function findall :: "tables \<Rightarrow> pystr \<Rightarrow> pystr \<Rightarrow> pystr list" where
  \<comment> \<open>\<open>re.findall\<close> for a pattern with one group: the groups of the matches found from
      left to right, each search starting where the previous match ended\<close>
  "findall T literal s =
     (case match_at T literal s of
        Some (w, rest) \<Rightarrow> w # findall T literal rest
      | None \<Rightarrow> (case s of [] \<Rightarrow> [] | c # cs \<Rightarrow> findall T literal cs))"
  by pat_completeness auto
termination
  by (relation "measure (\<lambda>(T, literal, s). length s)") (auto simp: match_at_shorter)

declare findall.simps [simp del]

definition log_patterns :: "pystr list" where
  "log_patterns =
     [str ''OOV:'', str ''out of vocabulary:'', str ''not found in dictionary:'',
      str ''unknown word:'']"

definition extract_oov_words_from_log :: "tables \<Rightarrow> (py_error + pystr) option \<Rightarrow> pystr list" where
  \<comment> \<open>the log file as for \<open>parse_validation_log\<close>\<close>
  "extract_oov_words_from_log T log_file =
     (case log_file of
        None \<Rightarrow> []
      | Some (Inl e) \<Rightarrow> []
      | Some (Inr content) \<Rightarrow>
          foldl (\<lambda>oov_words pattern. oov_words @ findall T pattern content) [] log_patterns)"

subsection \<open>read\_oov\_files\<close>

text \<open>
  The two files are opened in text mode and iterated line by line, inside a \<open>try\<close>. A
  file is absent, or opening it raises, or it is opened and its iteration delivers lines
  and then ends or raises (a byte sequence that is not UTF-8 raises when it is reached):
  \<open>Read_lines content err\<close> is a file whose iteration delivered the lines of \<open>content\<close>
  before it ended (\<open>None\<close>) or raised (\<open>Some e\<close>). What the loop did before an exception
  stays done.
\<close>

datatype text_file = Absent | Open_error py_error | Read_lines pystr "py_error option"

text \<open>
  In the iteration CR LF and CR are read as LF, and each line keeps its LF (the last line
  may have none).
\<close>

fun universal_newlines :: "pystr \<Rightarrow> pystr" where
  "universal_newlines [] = []"
| "universal_newlines (c # cs) =
     (if c = 0x0D then
        (case cs of
           [] \<Rightarrow> [0x0A]
         | d # ds \<Rightarrow> if d = 0x0A then 0x0A # universal_newlines ds
                     else 0x0A # universal_newlines cs)
      else c # universal_newlines cs)"

fun iter_lines_aux :: "pystr \<Rightarrow> pystr \<Rightarrow> pystr list" where
  "iter_lines_aux cur [] = (if cur = [] then [] else [rev cur])"
| "iter_lines_aux cur (c # cs) =
     (if c = 0x0A then rev (c # cur) # iter_lines_aux [] cs
      else iter_lines_aux (c # cur) cs)"

definition iter_lines :: "pystr \<Rightarrow> pystr list" where
  "iter_lines content = iter_lines_aux [] (universal_newlines content)"

text \<open>
  A \<open>dict\<close> keeps its keys in the order of their first insertion: an association list
  in which an assignment to a present key replaces the value in place and an assignment
  to a new key appends an entry.
\<close>

type_synonym 'v dict = "(pystr \<times> 'v) list"

definition dict_get :: "'v dict \<Rightarrow> pystr \<Rightarrow> 'v \<Rightarrow> 'v" where
  \<comment> \<open>\<open>d.get(k, default)\<close>\<close>
  "dict_get d k dflt = (case map_of d k of None \<Rightarrow> dflt | Some v \<Rightarrow> v)"

fun dict_set :: "'v dict \<Rightarrow> pystr \<Rightarrow> 'v \<Rightarrow> 'v dict" where
  \<comment> \<open>\<open>d[k] = v\<close>\<close>
  "dict_set [] k v = [(k, v)]"
| "dict_set ((k', v') # d) k v = (if k' = k then (k, v) # d else (k', v') # dict_set d k v)"

text \<open>
  \<^verbatim>\<open>
  for line in f:
      word = line.strip()
      if word:
          oov_words.append(word)
  \<close>
\<close>

definition read_oovs_found :: "text_file \<Rightarrow> pystr list" where
  "read_oovs_found oovs_file =
     (case oovs_file of
        Absent \<Rightarrow> []
      | Open_error e \<Rightarrow> []
      | Read_lines content err \<Rightarrow>
          foldl (\<lambda>oov_words line. let word = strip line
                                   in if word \<noteq> [] then oov_words @ [word] else oov_words)
                [] (iter_lines content))"

text \<open>
  \<^verbatim>\<open>
  for line in f:
      if ':' in line:
          parts = line.split(':', 1)
          if len(parts) == 2:
              words = parts[1].strip().split()
              for word in words:
                  word = word.strip()
                  if word:
                      word_frequencies[word] = word_frequencies.get(word, 0) + 1
  \<close>
\<close>

definition count_word :: "int dict \<Rightarrow> pystr \<Rightarrow> int dict" where
  "count_word word_frequencies word0 =
     (let word = strip word0
      in if word \<noteq> [] then dict_set word_frequencies word (dict_get word_frequencies word 0 + 1)
         else word_frequencies)"

definition utterance_line :: "int dict \<Rightarrow> pystr \<Rightarrow> int dict" where
  "utterance_line word_frequencies line =
     (if contains (str '':'') line then
        (let parts = split_once (cp CHR '':'') line
         in if length parts = 2
            then foldl count_word word_frequencies (split_ws (strip (parts ! 1)))
            else word_frequencies)
      else word_frequencies)"

definition read_utterance_oovs :: "text_file \<Rightarrow> int dict" where
  "read_utterance_oovs utterance_oovs =
     (case utterance_oovs of
        Absent \<Rightarrow> []
      | Open_error e \<Rightarrow> []
      | Read_lines content err \<Rightarrow> foldl utterance_line [] (iter_lines content))"

definition read_oov_files :: "text_file \<Rightarrow> text_file \<Rightarrow> pystr list \<times> int dict" where
  \<comment> \<open>on the two files of the corpus directory, \<open>oovs_found.txt\<close> and
      \<open>utterance_oovs.txt\<close>, each absent, unreadable or read\<close>
  "read_oov_files oovs_file utterance_oovs =
     (read_oovs_found oovs_file, read_utterance_oovs utterance_oovs)"

subsection \<open>analyze\_oov\_patterns\<close>

record patterns =
  numbers :: "pystr list"
  hyphenated :: "pystr list"
  contractions :: "pystr list"
  uppercase :: "pystr list"
  special_chars :: "pystr list"
  short :: "pystr list"
  long :: "pystr list"

definition empty_patterns :: patterns where
  "empty_patterns =
     \<lparr>numbers = [], hyphenated = [], contractions = [], uppercase = [], special_chars = [],
      short = [], long = []\<rparr>"

text \<open>
  The loop body: seven tests, one after the other, none excluding another.
  \<^verbatim>\<open>
  if any(c.isdigit() for c in word):          patterns['numbers'].append(word)
  if '-' in word:                              patterns['hyphenated'].append(word)
  if "'" in word:                              patterns['contractions'].append(word)
  if word.isupper() and len(word) > 1:         patterns['uppercase'].append(word)
  if any(not c.isalnum() and c not in ['-', "'"] for c in word):
                                               patterns['special_chars'].append(word)
  if len(word) <= 2:                           patterns['short'].append(word)
  if len(word) >= 15:                          patterns['long'].append(word)
  \<close>
\<close>

definition classify_word :: "tables \<Rightarrow> patterns \<Rightarrow> pystr \<Rightarrow> patterns" where
  "classify_word T p0 word =
     (let p1 = (if list_ex (isdigit T) word then p0\<lparr>numbers := numbers p0 @ [word]\<rparr> else p0);
          p2 = (if contains (str ''-'') word then p1\<lparr>hyphenated := hyphenated p1 @ [word]\<rparr> else p1);
          p3 = (if contains [0x27] word then p2\<lparr>contractions := contractions p2 @ [word]\<rparr>
                else p2);
          p4 = (if isupper T word \<and> 1 < length word then p3\<lparr>uppercase := uppercase p3 @ [word]\<rparr>
                else p3);
          p5 = (if list_ex (\<lambda>c. \<not> isalnum T c \<and> c \<notin> set [cp CHR ''-'', 0x27]) word
                then p4\<lparr>special_chars := special_chars p4 @ [word]\<rparr> else p4);
          p6 = (if length word \<le> 2 then p5\<lparr>short := short p5 @ [word]\<rparr> else p5)
      in if 15 \<le> length word then p6\<lparr>long := long p6 @ [word]\<rparr> else p6)"

definition analyze_oov_patterns :: "tables \<Rightarrow> pystr list \<Rightarrow> patterns" where
  "analyze_oov_patterns T oov_word_list = foldl (classify_word T) empty_patterns oov_word_list"

subsection \<open>print\_oov\_report\<close>

text \<open>
  \<open>sorted(xs, key=key, reverse=True)\<close>: the list is reversed, sorted by ascending key with
  a stable sort, and the result is reversed, so that elements with equal keys keep the
  order they have in \<open>xs\<close>.
\<close>

definition sorted_reverse :: "('a \<Rightarrow> int) \<Rightarrow> 'a list \<Rightarrow> 'a list" where
  "sorted_reverse key xs = rev (sort_key key (rev xs))"

text \<open>
  The report, as the data that \<open>print_oov_report\<close> prints: the two statistics (the total
  is \<open>None\<close> where \<open>N/A\<close> is printed), the most frequent words, the numbered list of the
  words with the count of the line \<open>... and n more\<close> when it is printed, and for each
  category that is printed its label, its size and its examples.
\<close>

record oov_report =
  unique_oov_words :: int
  total_oov_occurrences :: "int option"
  most_frequent :: "(pystr \<times> int) list"
  all_unique :: "pystr list"
  and_more :: "int option"
  pattern_analysis :: "(pystr \<times> int \<times> pystr list) list"

definition pattern_line :: "pystr \<Rightarrow> pystr list \<Rightarrow> (pystr \<times> int \<times> pystr list) list" where
  \<comment> \<open>\<open>if patterns[k]: print(label, len(patterns[k])); print(patterns[k][:5])\<close>\<close>
  "pattern_line label bucket =
     (if bucket \<noteq> [] then [(label, int (length bucket), take 5 bucket)] else [])"

definition print_oov_report :: "tables \<Rightarrow> pystr list \<Rightarrow> int dict \<Rightarrow> oov_report option" where
  \<comment> \<open>\<open>None\<close> is the message that no OOV words were found\<close>
  "print_oov_report T oov_word_list word_frequencies =
     (if oov_word_list = [] \<and> word_frequencies = [] then None
      else Some
        \<lparr>unique_oov_words = int (length oov_word_list),
         total_oov_occurrences =
           (if word_frequencies \<noteq> [] then Some (sum_list (map snd word_frequencies)) else None),
         most_frequent =
           (if word_frequencies \<noteq> [] then take 20 (sorted_reverse snd word_frequencies) else []),
         all_unique = (if oov_word_list \<noteq> [] then take 50 (sort oov_word_list) else []),
         and_more =
           (if 50 \<le> length oov_word_list then Some (int (length oov_word_list) - 50) else None),
         pattern_analysis =
           (if oov_word_list \<noteq> [] then
              (let p = analyze_oov_patterns T oov_word_list
               in pattern_line (str ''Numbers/Digits'') (numbers p) @
                  pattern_line (str ''Contractions'') (contractions p) @
                  pattern_line (str ''Hyphenated words'') (hyphenated p) @
                  pattern_line (str ''Potential acronyms'') (uppercase p))
            else [])\<rparr>)"

subsection \<open>main\<close>

text \<open>
  \<^verbatim>\<open>
  oov_words, word_frequencies = read_oov_files(mfa_corpus_dir)
  if len(sys.argv) >= 2:
      log_file = sys.argv[1]
      log_oovs = extract_oov_words_from_log(log_file)
      if log_oovs:
          oov_words.extend(log_oovs)
          oov_words = list(set(oov_words))  # Remove duplicates
  print_oov_report(oov_words, word_frequencies)
  \<close>
  The order in which \<open>list(set(xs))\<close> enumerates the strings follows their hash values,
  which Python draws anew for every process. It is the parameter \<open>list_of_set\<close> of the
  model; \<open>argv_log\<close> is \<open>None\<close> when no log is named on the command line.
\<close>

definition main ::
  "tables \<Rightarrow> (pystr list \<Rightarrow> pystr list) \<Rightarrow> text_file \<Rightarrow> text_file \<Rightarrow>
   (py_error + pystr) option option \<Rightarrow> oov_report option" where
  "main T list_of_set oovs_file utterance_oovs argv_log =
     (let (oov_word_list, word_frequencies) = read_oov_files oovs_file utterance_oovs;
          oov_word_list =
            (case argv_log of
               None \<Rightarrow> oov_word_list
             | Some log_file \<Rightarrow>
                 (let log_oovs = extract_oov_words_from_log T log_file
                  in if log_oovs \<noteq> [] then list_of_set (oov_word_list @ log_oovs)
                     else oov_word_list))
      in print_oov_report T oov_word_list word_frequencies)"

section \<open>The statements of the specification\<close>

subsection \<open>TextGrid files\<close>

text \<open>
  The specification speaks of the lines of an annotation file that hold a \<open>text =\<close>
  field, of the content of such a field, of the lines that declare a tier, and of the tier
  in force at a line: the one declared last, at that line or before it.
\<close>

definition has_text_field :: "pystr \<Rightarrow> bool" where
  "has_text_field raw \<longleftrightarrow> contains (str ''text ='') raw"

definition interval_text :: "pystr \<Rightarrow> pystr" where
  "interval_text raw =
     strip (strip_quote (strip (tl (dropWhile (\<lambda>c. c \<noteq> (cp CHR ''='')) (strip raw)))))"

definition is_tier_declaration :: "pystr \<Rightarrow> bool" where
  "is_tier_declaration raw \<longleftrightarrow> contains (str ''name ='') raw"

definition declared_tier :: "pystr \<Rightarrow> pystr" where
  \<open>declared_tier raw =
     (if contains (str ''"words"'') raw \<or> contains (0x27 # (str ''words'') @ [0x27]) raw then (str ''words'')
      else if contains (str ''"phones"'') raw \<or> contains (0x27 # (str ''phones'') @ [0x27]) raw
      then (str ''phones'')
      else (str ''unknown''))\<close>

definition tier_in_force :: "pystr list \<Rightarrow> pystr option" where
  "tier_in_force lines =
     (if filter is_tier_declaration lines = [] then None
      else Some (declared_tier (last (filter is_tier_declaration lines))))"

definition tier_at :: "pystr list \<Rightarrow> nat \<Rightarrow> pystr option" where
  "tier_at lines i = tier_in_force (take (Suc i) lines)"

text \<open>The lines, by their index, that hold a field with content under a given tier.\<close>

definition intervals_on :: "pystr \<Rightarrow> pystr list \<Rightarrow> nat list" where
  "intervals_on tier lines =
     filter (\<lambda>i. has_text_field (lines ! i) \<and> interval_text (lines ! i) \<noteq> [] \<and>
                 tier_at lines i = Some tier) [0..<length lines]"

text \<open>
  The duration, as the source computes it: the value of the first line with \<open>xmax\<close> and
  \<open>=\<close> whose field, the text between the first and the second \<open>=\<close>, is a float.
\<close>

definition is_xmax_line :: "pystr \<Rightarrow> bool" where
  "is_xmax_line line \<longleftrightarrow> contains (str ''xmax'') line \<and> contains (str ''='') line"

definition xmax_field :: "pystr \<Rightarrow> pystr" where
  "xmax_field line =
     strip (takeWhile (\<lambda>c. c \<noteq> (cp CHR ''='')) (tl (dropWhile (\<lambda>c. c \<noteq> (cp CHR ''='')) line)))"

definition xmax_value :: "(pystr \<Rightarrow> pyfloat option) \<Rightarrow> pystr \<Rightarrow> pyfloat option" where
  "xmax_value float_of line = (if is_xmax_line line then float_of (xmax_field line) else None)"

definition first_parsed_xmax :: "(pystr \<Rightarrow> pyfloat option) \<Rightarrow> pystr list \<Rightarrow> pyfloat" where
  "first_parsed_xmax float_of lines =
     (case List.map_filter (xmax_value float_of) lines of [] \<Rightarrow> Finite 0 | v # vs \<Rightarrow> v)"

text \<open>
  The duration, as the specification words it: the first \<open>xmax\<close> line alone decides, and
  a malformed one leaves the default.
\<close>

definition first_xmax_only :: "(pystr \<Rightarrow> pyfloat option) \<Rightarrow> pystr list \<Rightarrow> pyfloat" where
  "first_xmax_only float_of lines =
     (case filter is_xmax_line lines of
        [] \<Rightarrow> Finite 0
      | line # ls \<Rightarrow> (case float_of (xmax_field line) of None \<Rightarrow> Finite 0 | Some v \<Rightarrow> v))"

text \<open>The invariant of the statistics of a file.\<close>

definition stats_invariant :: "textgrid_stats \<Rightarrow> bool" where
  "stats_invariant s \<longleftrightarrow>
     0 \<le> interval_count s \<and> 0 \<le> word_count s \<and> 0 \<le> phone_count s \<and> 0 \<le> empty_intervals s \<and>
     word_count s + phone_count s + empty_intervals s \<le> interval_count s \<and>
     empty_intervals s \<le> interval_count s"

text \<open>
  An instance of \<open>float\<close> for the examples: the numerals of an optional sign, ASCII
  digits and at most one point, with their exact value. Python's \<open>float\<close> accepts more
  (exponents, underscores, \<open>inf\<close>, \<open>nan\<close>, other decimal digits) and rounds to a double;
  the theorems below hold for every \<open>float_of\<close>.
\<close>

definition digit_value :: "int \<Rightarrow> nat" where
  "digit_value c = length (takeWhile (\<lambda>d. d \<noteq> c) (str ''0123456789''))"

definition digits_value :: "pystr \<Rightarrow> nat" where
  "digits_value ds = foldl (\<lambda>n c. 10 * n + digit_value c) 0 ds"

definition decimal_float :: "pystr \<Rightarrow> pyfloat option" where
  "decimal_float s =
     (let t = strip s;
          neg = (t \<noteq> [] \<and> hd t = (cp CHR ''-''));
          u = (if t \<noteq> [] \<and> (hd t = (cp CHR ''-'') \<or> hd t = (cp CHR ''+'')) then tl t else t);
          ip = takeWhile ascii_isdigit u;
          rest = dropWhile ascii_isdigit u;
          fp = (if rest = [] then Some []
                else if hd rest = cp CHR ''.'' \<and> list_all ascii_isdigit (tl rest) then Some (tl rest)
                else None)
      in case fp of
           None \<Rightarrow> None
         | Some f \<Rightarrow>
             if ip = [] \<and> f = [] then None
             else Some (Finite ((if neg then - 1 else 1) *
                                (real (digits_value (ip @ f)) / 10 ^ length f))))"

text \<open>
  A TextGrid file with the tier \<open>words\<close> holding the intervals "", "cat" and "dog", and
  the tier \<open>phones\<close> holding "k", "ae" and "t".
\<close>

definition example_textgrid :: pystr where
  \<open>example_textgrid = concat (map (\<lambda>line. line @ (str ''\<newline>''))
     [(str ''File type = "ooTextFile"''),
      (str ''Object class = "TextGrid"''),
      (str ''''),
      (str ''xmin = 0''),
      (str ''xmax = 1.5''),
      (str ''tiers? <exists>''),
      (str ''size = 2''),
      (str ''item []:''),
      (str ''    item [1]:''),
      (str ''        class = "IntervalTier"''),
      (str ''        name = "words"''),
      (str ''        xmin = 0''),
      (str ''        xmax = 1.5''),
      (str ''        intervals: size = 3''),
      (str ''        intervals [1]:''),
      (str ''            xmin = 0''),
      (str ''            xmax = 0.5''),
      (str ''            text = ""''),
      (str ''        intervals [2]:''),
      (str ''            xmin = 0.5''),
      (str ''            xmax = 1.0''),
      (str ''            text = "cat"''),
      (str ''''),
      (str ''        intervals [3]:''),
      (str ''            xmin = 1.0''),
      (str ''            xmax = 1.5''),
      (str ''            text = "dog"''),
      (str ''    item [2]:''),
      (str ''        class = "IntervalTier"''),
      (str ''        name = "phones"''),
      (str ''        xmin = 0''),
      (str ''        xmax = 1.5''),
      (str ''        intervals: size = 3''),
      (str ''        intervals [1]:''),
      (str ''            xmin = 0''),
      (str ''            xmax = 0.5''),
      (str ''            text = "k"''),
      (str ''        intervals [2]:''),
      (str ''            xmin = 0.5''),
      (str ''            xmax = 1.0''),
      (str ''            text = "ae"''),
      (str ''        intervals [3]:''),
      (str ''            xmin = 1.0''),
      (str ''            xmax = 1.5''),
      (str ''            text = "t"'')])\<close>

text \<open>
  Two short files with characters beyond ASCII: in the first the content of the interval
  is a no-break space, U+00A0, which \<open>strip\<close> removes; in the second the two intervals
  are separated by the line boundary U+0085.
\<close>

definition example_nbsp :: pystr where
  \<open>example_nbsp = str ''name = "words"\<newline>text = "'' @ [0xA0] @ str ''"''\<close>

definition example_nel :: pystr where
  \<open>example_nel = str ''text = "a"'' @ [0x85] @ str ''text = "b"''\<close>

subsection \<open>Validation logs\<close>

text \<open>
  The phrases of the source: those of a line that states that there is no error, and
  those that indicate a true error.
\<close>

definition no_error_phrases :: "pystr list" where
  "no_error_phrases =
     [(str ''no error''), (str ''there were no''), (str ''0 error''), (str ''without error''), (str ''error read''),
      (str ''read error''), (str ''no issues'')]"

definition error_indicators :: "pystr list" where
  "error_indicators =
     [(str '' error:''), (str ''error occurred''), (str ''failed''), (str ''exception''), (str ''traceback''), (str ''error -'')]"

text \<open>The lines that count as errors.\<close>

definition is_error_line :: "tables \<Rightarrow> pystr \<Rightarrow> bool" where
  "is_error_line T line \<longleftrightarrow>
     contains (str ''error'') (lower T line) \<and>
     list_ex (\<lambda>phrase. contains phrase (lower T line)) error_indicators \<and>
     \<not> list_ex (\<lambda>phrase. contains phrase (lower T line)) no_error_phrases"

text \<open>
  The lines that count as errors in the words of the specification, whose indicator of a
  true error is \<open>error:\<close>, without the space before it.
\<close>

definition claimed_error_line :: "tables \<Rightarrow> pystr \<Rightarrow> bool" where
  "claimed_error_line T line \<longleftrightarrow>
     contains (str ''error'') (lower T line) \<and>
     list_ex (\<lambda>phrase. contains phrase (lower T line))
       [(str ''error:''), (str ''failed''), (str ''exception''), (str ''traceback'')] \<and>
     \<not> list_ex (\<lambda>phrase. contains phrase (lower T line)) no_error_phrases"

subsection \<open>Word patterns\<close>

text \<open>
  The seven categories, the list of a category in the result of \<open>analyze_oov_patterns\<close>,
  and the tags of a word: the categories whose list holds the word when the word is
  analysed alone.
\<close>

datatype category = Numbers | Hyphenated | Contractions | Uppercase | Special_chars | Short | Long

fun bucket :: "category \<Rightarrow> patterns \<Rightarrow> pystr list" where
  "bucket Numbers p = numbers p"
| "bucket Hyphenated p = hyphenated p"
| "bucket Contractions p = contractions p"
| "bucket Uppercase p = uppercase p"
| "bucket Special_chars p = special_chars p"
| "bucket Short p = short p"
| "bucket Long p = long p"

definition classify :: "tables \<Rightarrow> pystr \<Rightarrow> category list" where
  "classify T word =
     filter (\<lambda>c. word \<in> set (bucket c (analyze_oov_patterns T [word])))
       [Numbers, Hyphenated, Contractions, Uppercase, Special_chars, Short, Long]"

text \<open>
  The rule of each category, as the source has it: a digit is a character of
  \<open>isdigit\<close>, an alphanumeric character one of \<open>isalnum\<close>, and the rule of \<open>uppercase\<close> is
  that of \<open>isupper\<close>, at least one uppercase letter and no lowercase or titlecase letter,
  on a word of more than one character.
\<close>

fun tag_rule :: "tables \<Rightarrow> category \<Rightarrow> pystr \<Rightarrow> bool" where
  "tag_rule T Numbers word = list_ex (isdigit T) word"
| "tag_rule T Hyphenated word = (cp CHR ''-'' \<in> set word)"
| "tag_rule T Contractions word = (0x27 \<in> set word)"
| "tag_rule T Uppercase word =
     (list_ex (is_upper T) word \<and> \<not> list_ex (\<lambda>c. is_lower T c \<or> is_title T c) word \<and>
      1 < length word)"
| "tag_rule T Special_chars word =
     list_ex (\<lambda>c. \<not> isalnum T c \<and> c \<noteq> cp CHR ''-'' \<and> c \<noteq> 0x27) word"
| "tag_rule T Short word = (length word \<le> 2)"
| "tag_rule T Long word = (15 \<le> length word)"

text \<open>The rule of \<open>uppercase\<close> in the words of the specification: every character is uppercase.\<close>

definition claimed_uppercase :: "tables \<Rightarrow> pystr \<Rightarrow> bool" where
  "claimed_uppercase T word \<longleftrightarrow> list_all (is_upper T) word \<and> 1 < length word"

subsection \<open>The per-utterance OOV file\<close>

text \<open>
  The words of the payload of a line: what follows the first colon, split at whitespace;
  a line without a colon has none.
\<close>

definition payload_words :: "pystr \<Rightarrow> pystr list" where
  "payload_words line =
     (if (cp CHR '':'') \<in> set line then split_ws (tl (dropWhile (\<lambda>c. c \<noteq> (cp CHR '':'')) line)) else [])"

text \<open>
  A per-utterance OOV file of four lines: the second ends with CR LF, the third has no
  colon, and in the fourth a no-break space, U+00A0, separates two words.
\<close>

definition example_utterance_oovs :: pystr where
  "example_utterance_oovs =
     str ''utt001.wav: cat cat dog\<newline>utt002.wav: dog bird'' @ [0x0D, 0x0A] @
     str ''no colon cat\<newline>utt003.wav: cat'' @ [0xA0] @ str ''emu''"

subsection \<open>The report\<close>

text \<open>
  An enumeration of a set of strings, as \<open>list(set(xs))\<close> is one: every string of \<open>xs\<close>
  once, in some order.
\<close>

definition enumerates :: "(pystr list \<Rightarrow> pystr list) \<Rightarrow> bool" where
  "enumerates list_of_set \<longleftrightarrow> (\<forall>xs. distinct (list_of_set xs) \<and> set (list_of_set xs) = set xs)"

section \<open>Facts about the pystr operations\<close>

text \<open>The literals, as lists of code points.\<close>

lemma str_Nil: "str [] = []"
  by (simp add: str_def)

lemma str_Cons: "str (c # cs) = cp c # str cs"
  by (simp add: str_def)

lemmas str_eval = str_Nil str_Cons cp_def

text \<open>\<open>contains\<close> is the contiguous sublist relation of the library.\<close>

lemma startswith_prefix: "startswith p s = prefix p s"
  by (induction p s rule: startswith.induct) auto

lemma contains_sublist: "contains p s = sublist p s"
  by (induction s) (auto simp: startswith_prefix sublist_Cons_right)

text \<open>
  Stripping characters from both ends keeps every occurrence of a pattern that neither
  begins nor ends with such a character.
\<close>

lemma sublist_dropWhile:
  assumes "p \<noteq> []" "\<not> P (hd p)"
  shows "sublist p (dropWhile P s) = sublist p s"
proof (induction s)
  case Nil
  then show ?case by simp
next
  case (Cons x xs)
  show ?case
  proof (cases "P x")
    case True
    with assms have "\<not> prefix p (x # xs)"
      by (cases p) auto
    with True Cons show ?thesis
      by (simp add: sublist_Cons_right)
  next
    case False
    then show ?thesis by simp
  qed
qed

lemma sublist_strip_chars:
  assumes "p \<noteq> []" "\<not> P (hd p)" "\<not> P (last p)"
  shows "sublist p (strip_chars P s) = sublist p s"
proof -
  have "sublist p (strip_chars P s) = sublist (rev p) (dropWhile P (rev (dropWhile P s)))"
    unfolding strip_chars_def by (metis rev_rev_ident sublist_rev)
  also have "\<dots> = sublist (rev p) (rev (dropWhile P s))"
    using assms by (intro sublist_dropWhile) (simp_all add: hd_rev)
  also have "\<dots> = sublist p (dropWhile P s)"
    by (simp add: sublist_rev)
  also have "\<dots> = sublist p s"
    using assms by (intro sublist_dropWhile)
  finally show ?thesis .
qed

lemma contains_strip:
  "p \<noteq> [] \<Longrightarrow> \<not> isspace (hd p) \<Longrightarrow> \<not> isspace (last p) \<Longrightarrow> contains p (strip s) = contains p s"
  by (simp add: contains_sublist strip_def sublist_strip_chars)

lemma contains_mem: "contains p s \<Longrightarrow> c \<in> set p \<Longrightarrow> c \<in> set s"
  by (auto simp: contains_sublist sublist_def)

text \<open>The pieces of a split, when the separator occurs.\<close>

lemma split_once_mem:
  "c \<in> set s \<Longrightarrow> split_once c s = [takeWhile (\<lambda>x. x \<noteq> c) s, tl (dropWhile (\<lambda>x. x \<noteq> c) s)]"
  by (induction s) auto

lemma split_once_notmem: "c \<notin> set s \<Longrightarrow> split_once c s = [s]"
  by (induction s) auto

lemma split_on_not_Nil: "split_on c s \<noteq> []"
  by (induction s) (auto split: list.splits)

lemma split_on_mem:
  "c \<in> set s \<Longrightarrow>
     split_on c s = takeWhile (\<lambda>x. x \<noteq> c) s # split_on c (tl (dropWhile (\<lambda>x. x \<noteq> c) s))"
  by (induction s) (auto split: list.splits simp: split_on_not_Nil)

lemma split_on_hd: "hd (split_on c s) = takeWhile (\<lambda>x. x \<noteq> c) s"
  by (induction s) (auto split: list.splits simp: split_on_not_Nil)

lemma index_split_on:
  assumes "c \<in> set s"
  shows "index (split_on c s) (Suc 0) =
     Inr (takeWhile (\<lambda>x. x \<noteq> c) (tl (dropWhile (\<lambda>x. x \<noteq> c) s)))"
proof -
  let ?r = "tl (dropWhile (\<lambda>x. x \<noteq> c) s)"
  obtain p ps where r: "split_on c ?r = p # ps"
    using split_on_not_Nil [of c ?r] by (cases "split_on c ?r") auto
  then have "p = takeWhile (\<lambda>x. x \<noteq> c) ?r"
    using split_on_hd [of c ?r] by simp
  with r assms show ?thesis
    by (simp add: split_on_mem index_def)
qed

text \<open>The ASCII tables have what the proofs use of the tables of Python.\<close>

lemma python_tables_ascii: "python_tables ascii_tables"
  by (simp add: python_tables_def ascii_tables_def isspace_def ascii_isalnum_def
      ascii_isdigit_def ascii_isupper_def ascii_islower_def)

text \<open>On a text of ASCII characters the tables of Python are the ASCII tables.\<close>

lemma lower_ascii: "python_tables T \<Longrightarrow> isascii s \<Longrightarrow> lower T s = lower ascii_tables s"
  by (simp add: python_tables_def ascii_tables_def)

section \<open>Properties of analyze\_textgrids.py\<close>

subsection \<open>The scan of the lines\<close>

lemma detect_tier_strip:
  "detect_tier t (strip raw) = (if is_tier_declaration raw then Some (declared_tier raw) else t)"
  by (simp add: detect_tier_def is_tier_declaration_def declared_tier_def contains_strip isspace_def str_eval)

lemma count_interval_strip:
  "count_interval t (strip raw) s =
     (if has_text_field raw then
        (let s1 = s\<lparr>interval_count := interval_count s + 1\<rparr>
         in if interval_text raw = [] then s1\<lparr>empty_intervals := empty_intervals s + 1\<rparr>
            else if t = Some (str ''words'') then s1\<lparr>word_count := word_count s + 1\<rparr>
            else if t = Some (str ''phones'') then s1\<lparr>phone_count := phone_count s + 1\<rparr>
            else s1)
      else s)"
proof (cases "has_text_field raw")
  case True
  then have c: "contains (str ''text ='') (strip raw)"
    by (simp add: has_text_field_def contains_strip isspace_def str_eval)
  then have "(cp CHR ''='') \<in> set (strip raw)"
    by (rule contains_mem) (simp add: str_eval)
  then have "index (split_once (cp CHR ''='') (strip raw)) 1 =
      Inr (tl (dropWhile (\<lambda>c. c \<noteq> (cp CHR ''='')) (strip raw)))"
    by (simp add: split_once_mem index_def)
  with c True show ?thesis
    by (simp add: count_interval_def interval_text_def Let_def)
next
  case False
  then have "\<not> contains (str ''text ='') (strip raw)"
    by (simp add: has_text_field_def contains_strip isspace_def str_eval)
  with False show ?thesis
    by (simp add: count_interval_def)
qed

lemma tier_in_force_snoc:
  "tier_in_force (ls @ [l]) =
     (if is_tier_declaration l then Some (declared_tier l) else tier_in_force ls)"
  by (simp add: tier_in_force_def)

lemma fold_tier: "fst (foldl scan_line (None, s0) ls) = tier_in_force ls"
proof (induction ls rule: rev_induct)
  case Nil
  show ?case by (simp add: tier_in_force_def)
next
  case (snoc l ls)
  then show ?case
    by (simp add: scan_line_def Let_def detect_tier_strip tier_in_force_snoc)
qed

lemma intervals_on_snoc:
  "intervals_on tier (ls @ [l]) =
     intervals_on tier ls @
     (if has_text_field l \<and> interval_text l \<noteq> [] \<and> tier_in_force (ls @ [l]) = Some tier
      then [length ls] else [])"
proof -
  have "filter (\<lambda>i. has_text_field ((ls @ [l]) ! i) \<and> interval_text ((ls @ [l]) ! i) \<noteq> [] \<and>
                 tier_at (ls @ [l]) i = Some tier) [0..<length ls] = intervals_on tier ls"
    unfolding intervals_on_def
    by (rule filter_cong) (auto simp: nth_append tier_at_def)
  then show ?thesis
    by (simp add: intervals_on_def tier_at_def)
qed

lemma fold_counts:
  "interval_count (snd (foldl scan_line (None, s0) ls)) =
     interval_count s0 + int (length (filter has_text_field ls)) \<and>
   empty_intervals (snd (foldl scan_line (None, s0) ls)) =
     empty_intervals s0 + int (length (filter (\<lambda>l. has_text_field l \<and> interval_text l = []) ls)) \<and>
   word_count (snd (foldl scan_line (None, s0) ls)) =
     word_count s0 + int (length (intervals_on (str ''words'') ls)) \<and>
   phone_count (snd (foldl scan_line (None, s0) ls)) =
     phone_count s0 + int (length (intervals_on (str ''phones'') ls))"
proof (induction ls rule: rev_induct)
  case Nil
  show ?case by (simp add: intervals_on_def)
next
  case (snoc l ls)
  define st where "st = foldl scan_line (None, s0) ls"
  have t: "detect_tier (fst st) (strip l) = tier_in_force (ls @ [l])"
    by (simp add: st_def fold_tier detect_tier_strip tier_in_force_snoc)
  have step: "snd (foldl scan_line (None, s0) (ls @ [l])) =
      count_interval (tier_in_force (ls @ [l])) (strip l) (snd st)"
    by (simp add: st_def [symmetric] scan_line_def Let_def t)
  show ?case
    unfolding step using snoc
    by (simp add: st_def [symmetric] count_interval_strip intervals_on_snoc Let_def str_eval)
qed

subsection \<open>The search for the duration\<close>

lemma find_xmax_step:
  "find_xmax float_of (line # lines) stats =
     (case xmax_value float_of line of
        None \<Rightarrow> find_xmax float_of lines stats
      | Some v \<Rightarrow> stats\<lparr>total_duration := v\<rparr>)"
proof (cases "contains (str ''='') line")
  case True
  then have "(cp CHR ''='') \<in> set line"
    by (rule contains_mem) (simp add: str_eval)
  then show ?thesis
    by (simp add: xmax_value_def is_xmax_line_def xmax_field_def index_split_on)
next
  case False
  then show ?thesis
    by (simp add: xmax_value_def is_xmax_line_def)
qed

lemma find_xmax_eq:
  "find_xmax float_of lines stats =
     stats\<lparr>total_duration :=
       (case List.map_filter (xmax_value float_of) lines of [] \<Rightarrow> total_duration stats | v # vs \<Rightarrow> v)\<rparr>"
proof (induction lines)
  case Nil
  show ?case by (simp add: List.map_filter_simps)
next
  case (Cons line lines)
  show ?case
    unfolding find_xmax_step using Cons
    by (simp add: List.map_filter_simps split: option.splits)
qed

lemma find_xmax_counts:
  "interval_count (find_xmax float_of lines stats) = interval_count stats \<and>
   word_count (find_xmax float_of lines stats) = word_count stats \<and>
   phone_count (find_xmax float_of lines stats) = phone_count stats \<and>
   empty_intervals (find_xmax float_of lines stats) = empty_intervals stats"
  by (subst find_xmax_eq, simp)+

lemma count_interval_other:
  "total_duration (count_interval t line s) = total_duration s \<and>
   has_errors (count_interval t line s) = has_errors s \<and>
   filename (count_interval t line s) = filename s"
  by (simp add: count_interval_def Let_def split: sum.splits)

lemma foldl_scan_other:
  "total_duration (snd (foldl scan_line st ls)) = total_duration (snd st) \<and>
   has_errors (snd (foldl scan_line st ls)) = has_errors (snd st) \<and>
   filename (snd (foldl scan_line st ls)) = filename (snd st)"
proof (induction ls arbitrary: st)
  case Nil
  show ?case by simp
next
  case (Cons l ls)
  show ?case
    by (simp add: Cons [of "scan_line st l"]) (simp add: scan_line_def Let_def count_interval_other)
qed

subsection \<open>The invariant\<close>

lemma count_interval_invariant:
  "stats_invariant s \<Longrightarrow> stats_invariant (count_interval t line s)"
  by (auto simp: stats_invariant_def count_interval_def Let_def split: sum.splits)

lemma foldl_scan_invariant:
  "stats_invariant (snd st) \<Longrightarrow> stats_invariant (snd (foldl scan_line st ls))"
proof (induction ls arbitrary: st)
  case Nil
  then show ?case by simp
next
  case (Cons l ls)
  have "stats_invariant (snd (scan_line st l))"
    using Cons.prems by (simp add: scan_line_def Let_def count_interval_invariant)
  then show ?case
    using Cons.IH [of "scan_line st l"] by simp
qed

lemma read_textgrid_inv: "stats_invariant (read_textgrid float_of filepath file)"
proof (cases "file")
  case (Inl e)
  then show ?thesis
    by (simp add: read_textgrid_def initial_stats_def stats_invariant_def)
next
  case (Inr content)
  have "stats_invariant (find_xmax float_of (splitlines content) (initial_stats filepath))"
    by (subst find_xmax_eq) (simp add: stats_invariant_def initial_stats_def)
  then show ?thesis
    using Inr by (simp add: read_textgrid_def scan_lines_def foldl_scan_invariant Let_def)
qed

subsection \<open>The statistics of a file\<close>

lemma read_textgrid_counts_general:
  "interval_count (read_textgrid float_of filepath (Inr content)) =
     int (length (filter has_text_field (splitlines content))) \<and>
   empty_intervals (read_textgrid float_of filepath (Inr content)) =
     int (length (filter (\<lambda>l. has_text_field l \<and> interval_text l = []) (splitlines content))) \<and>
   word_count (read_textgrid float_of filepath (Inr content)) =
     int (length (intervals_on (str ''words'') (splitlines content))) \<and>
   phone_count (read_textgrid float_of filepath (Inr content)) =
     int (length (intervals_on (str ''phones'') (splitlines content)))"
  using fold_counts [of "find_xmax float_of (splitlines content) (initial_stats filepath)"
      "splitlines content"]
  by (simp add: read_textgrid_def scan_lines_def find_xmax_counts Let_def) (simp add: initial_stats_def)

lemma ex_intervals: "length (filter has_text_field (splitlines example_textgrid)) = 6"
  by code_simp

lemma ex_empty:
  "length (filter (\<lambda>l. has_text_field l \<and> interval_text l = []) (splitlines example_textgrid)) = 1"
  by code_simp

lemma ex_words: "length (intervals_on (str ''words'') (splitlines example_textgrid)) = 2"
  by code_simp

lemma ex_phones: "length (intervals_on (str ''phones'') (splitlines example_textgrid)) = 3"
  by code_simp

lemma ex_nbsp_words: "length (intervals_on (str ''words'') (splitlines example_nbsp)) = 0"
  by code_simp

lemma ex_nbsp_empty:
  "length (filter (\<lambda>l. has_text_field l \<and> interval_text l = []) (splitlines example_nbsp)) = 1"
  by code_simp

lemma ex_nel_intervals: "length (filter has_text_field (splitlines example_nel)) = 2"
  by code_simp

text \<open>
  C1: in a file that can be read, every line with a \<open>text =\<close> field is one interval; it
  is an empty interval when its content, stripped of whitespace and double quotes, is
  empty, a word when the content is not empty and the tier in force is \<open>words\<close>, and a
  phone when the content is not empty and the tier in force is \<open>phones\<close>; the tier in
  force at a line is the one of the last declaration up to that line. For the file with
  the words "", "cat", "dog" and the phones "k", "ae", "t" the counts are 6 intervals,
  2 words, 3 phones and 1 empty interval; an interval whose content is a no-break space
  is an empty interval, and two intervals separated by the line boundary U+0085 are two.
\<close>

theorem read_textgrid_counts:
  "interval_count (read_textgrid float_of filepath (Inr content)) =
     int (length (filter has_text_field (splitlines content))) \<and>
   empty_intervals (read_textgrid float_of filepath (Inr content)) =
     int (length (filter (\<lambda>l. has_text_field l \<and> interval_text l = []) (splitlines content))) \<and>
   word_count (read_textgrid float_of filepath (Inr content)) =
     int (length (intervals_on (str ''words'') (splitlines content))) \<and>
   phone_count (read_textgrid float_of filepath (Inr content)) =
     int (length (intervals_on (str ''phones'') (splitlines content))) \<and>
   interval_count (read_textgrid float_of filepath (Inr example_textgrid)) = 6 \<and>
   word_count (read_textgrid float_of filepath (Inr example_textgrid)) = 2 \<and>
   phone_count (read_textgrid float_of filepath (Inr example_textgrid)) = 3 \<and>
   empty_intervals (read_textgrid float_of filepath (Inr example_textgrid)) = 1 \<and>
   word_count (read_textgrid float_of filepath (Inr example_nbsp)) = 0 \<and>
   empty_intervals (read_textgrid float_of filepath (Inr example_nbsp)) = 1 \<and>
   interval_count (read_textgrid float_of filepath (Inr example_nel)) = 2"
  using read_textgrid_counts_general [of float_of filepath content]
    read_textgrid_counts_general [of float_of filepath example_textgrid]
    read_textgrid_counts_general [of float_of filepath example_nbsp]
    read_textgrid_counts_general [of float_of filepath example_nel]
  by (simp only: ex_intervals ex_empty ex_words ex_phones ex_nbsp_words ex_nbsp_empty
      ex_nel_intervals) simp

theorem read_textgrid_counts_witness:
  \<open>interval_count (read_textgrid decimal_float (str ''out/a.TextGrid'') (Inr (str ''name = "words"\<newline>text = "hi"''))) =
     int (length (filter has_text_field (splitlines (str ''name = "words"\<newline>text = "hi"'')))) \<and>
   word_count (read_textgrid decimal_float (str ''out/a.TextGrid'') (Inr (str ''name = "words"\<newline>text = "hi"''))) =
     int (length (intervals_on (str ''words'') (splitlines (str ''name = "words"\<newline>text = "hi"'')))) \<and>
   word_count (read_textgrid decimal_float (str ''out/a.TextGrid'') (Inr (str ''name = "words"\<newline>text = "hi"''))) = 1\<close>
proof -
  have \<open>length (intervals_on (str ''words'') (splitlines (str ''name = "words"\<newline>text = "hi"''))) = 1\<close>
    by code_simp
  then show ?thesis
    using read_textgrid_counts [of decimal_float "(str ''out/a.TextGrid'')"
        \<open>(str ''name = "words"\<newline>text = "hi"'')\<close>]
    by simp
qed

lemma read_textgrid_duration:
  "total_duration (read_textgrid float_of filepath (Inr content)) =
     first_parsed_xmax float_of (splitlines content) \<and>
   \<not> has_errors (read_textgrid float_of filepath (Inr content))"
  by (simp add: read_textgrid_def scan_lines_def foldl_scan_other Let_def)
     (simp add: find_xmax_eq first_parsed_xmax_def initial_stats_def split: list.splits)

text \<open>
  C3, as the source has it: the duration of a file that can be read is the value of the
  first line with \<open>xmax\<close> and \<open>=\<close> whose field is a float, the lines before it whose
  field is malformed being skipped and the lines after it ignored; it is the default 0.0
  when no such line has a float, and the scan raises nothing.
\<close>

theorem read_textgrid_total_duration:
  "total_duration (read_textgrid float_of filepath (Inr content)) =
     first_parsed_xmax float_of (splitlines content) \<and>
   \<not> has_errors (read_textgrid float_of filepath (Inr content))"
  by (rule read_textgrid_duration)

theorem read_textgrid_total_duration_witness:
  "total_duration (read_textgrid decimal_float (str ''out/a.TextGrid'')
      (Inr (str ''xmax = 1'' @ [0x85] @ str ''xmax = 2''))) = Finite 1 \<and>
   total_duration (read_textgrid decimal_float (str ''out/a.TextGrid'')
      (Inr (str ''xmax = 1.5\<newline>xmax = 0.5''))) = Finite (3 / 2) \<and>
   total_duration (read_textgrid decimal_float (str ''out/a.TextGrid'')
      (Inr (str ''xmax = \<newline>xmin = 0''))) = Finite 0 \<and>
   \<not> has_errors (read_textgrid decimal_float (str ''out/a.TextGrid'') (Inr (str ''xmax = \<newline>xmin = 0'')))"
proof -
  have "first_parsed_xmax decimal_float (splitlines (str ''xmax = 1.5\<newline>xmax = 0.5'')) = Finite (3 / 2)"
    by code_simp
  moreover have "first_parsed_xmax decimal_float
      (splitlines (str ''xmax = 1'' @ [0x85] @ str ''xmax = 2'')) = Finite 1"
    by code_simp
  moreover have "first_parsed_xmax decimal_float (splitlines (str ''xmax = \<newline>xmin = 0'')) = Finite 0"
    by code_simp
  ultimately show ?thesis
    using read_textgrid_total_duration [of decimal_float "str ''out/a.TextGrid''"
        "str ''xmax = 1'' @ [0x85] @ str ''xmax = 2''"]
      read_textgrid_total_duration [of decimal_float "(str ''out/a.TextGrid'')"
        "(str ''xmax = 1.5\<newline>xmax = 0.5'')"]
      read_textgrid_total_duration [of decimal_float "(str ''out/a.TextGrid'')"
        "(str ''xmax = \<newline>xmin = 0'')"]
    by simp
qed

text \<open>
  C3, as the specification has it, fails: in a file whose first \<open>xmax\<close> line is malformed
  and whose second is not, the duration is the value of the second line, while the first
  occurrence alone would leave the default.
\<close>

theorem first_xmax_only_counterexample:
  "total_duration (read_textgrid decimal_float (str ''out/a.TextGrid'')
      (Inr (str ''xmax = abc\<newline>xmax = 2.5''))) = Finite (5 / 2) \<and>
   first_xmax_only decimal_float (splitlines (str ''xmax = abc\<newline>xmax = 2.5'')) = Finite 0"
proof -
  have "first_parsed_xmax decimal_float (splitlines (str ''xmax = abc\<newline>xmax = 2.5'')) = Finite (5 / 2)"
    by code_simp
  moreover have "first_xmax_only decimal_float (splitlines (str ''xmax = abc\<newline>xmax = 2.5'')) = Finite 0"
    by code_simp
  ultimately show ?thesis
    using read_textgrid_duration [of decimal_float "(str ''out/a.TextGrid'')"
        "(str ''xmax = abc\<newline>xmax = 2.5'')"]
    by simp
qed

text \<open>
  C9: the statistics of every file, read or not, have counters that are not negative,
  with the words, the phones and the empty intervals together at most the intervals, and
  the empty intervals at most the intervals.
\<close>

theorem read_textgrid_invariant:
  "0 \<le> interval_count (read_textgrid float_of filepath file) \<and>
   0 \<le> word_count (read_textgrid float_of filepath file) \<and>
   0 \<le> phone_count (read_textgrid float_of filepath file) \<and>
   0 \<le> empty_intervals (read_textgrid float_of filepath file) \<and>
   word_count (read_textgrid float_of filepath file) +
     phone_count (read_textgrid float_of filepath file) +
     empty_intervals (read_textgrid float_of filepath file)
     \<le> interval_count (read_textgrid float_of filepath file) \<and>
   empty_intervals (read_textgrid float_of filepath file)
     \<le> interval_count (read_textgrid float_of filepath file) \<and>
   has_errors (read_textgrid float_of filepath (Inl e))"
  using read_textgrid_inv [of float_of filepath "file"]
  by (simp add: stats_invariant_def) (simp add: read_textgrid_def)

theorem read_textgrid_invariant_witness:
  "word_count (read_textgrid decimal_float (str ''out/a.TextGrid'') (Inl OSError)) +
     phone_count (read_textgrid decimal_float (str ''out/a.TextGrid'') (Inl OSError)) +
     empty_intervals (read_textgrid decimal_float (str ''out/a.TextGrid'') (Inl OSError))
     \<le> interval_count (read_textgrid decimal_float (str ''out/a.TextGrid'') (Inl OSError)) \<and>
   has_errors (read_textgrid decimal_float (str ''out/a.TextGrid'') (Inl OSError)) \<and>
   empty_intervals (read_textgrid decimal_float (str ''out/a.TextGrid'') (Inr example_textgrid))
     \<le> interval_count (read_textgrid decimal_float (str ''out/a.TextGrid'') (Inr example_textgrid))"
  using read_textgrid_invariant [of decimal_float "(str ''out/a.TextGrid'')" "Inl OSError" OSError]
    read_textgrid_invariant [of decimal_float "(str ''out/a.TextGrid'')" "Inr example_textgrid" OSError]
  by simp
section \<open>Properties of metrics.py\<close>

subsection \<open>The count of the errors\<close>

lemma count_error_eq:
  "count_error T line stats =
     (if is_error_line T line then stats\<lparr>error_count := error_count stats + 1\<rparr> else stats)"
  by (simp add: count_error_def is_error_line_def error_indicators_def no_error_phrases_def
      Let_def)

lemma fold_oov_words_error_count:
  "error_count (fold (\<lambda>i st. if P i then st\<lparr>oov_words := insert (f i) (oov_words st)\<rparr> else st)
     is stats) = error_count stats"
  by (induction "is" arbitrary: stats) auto

lemma collect_oov_words_error_count:
  "error_count (collect_oov_words T line stats) = error_count stats"
  by (simp add: collect_oov_words_def Let_def fold_oov_words_error_count)

lemma count_oov_error_count: "error_count (count_oov T line stats) = error_count stats"
  by (simp add: count_oov_def)

lemma validation_line_error_count:
  "error_count (validation_line T stats line) =
     error_count stats + (if is_error_line T line then 1 else 0)"
  by (simp add: validation_line_def count_error_eq collect_oov_words_error_count
      count_oov_error_count)

lemma foldl_validation_error_count:
  "error_count (foldl (validation_line T) stats lines) =
     error_count stats + int (length (filter (is_error_line T) lines))"
  by (induction lines arbitrary: stats) (simp_all add: validation_line_error_count)

lemma parse_validation_log_error_count:
  "error_count (parse_validation_log T (Some (Inr content))) =
     int (length (filter (is_error_line T) (splitlines content)))"
  by (simp add: parse_validation_log_def foldl_validation_error_count
      initial_validation_stats_def)

text \<open>On a line of ASCII characters the tables of Python decide as the ASCII tables do.\<close>

lemma is_error_line_ascii:
  "python_tables T \<Longrightarrow> isascii line \<Longrightarrow> is_error_line T line = is_error_line ascii_tables line"
  by (simp add: is_error_line_def lower_ascii)

lemma filter_error_lines_ascii:
  assumes "python_tables T" "list_all isascii lines"
  shows "filter (is_error_line T) lines = filter (is_error_line ascii_tables) lines"
  using assms by (intro filter_cong) (auto simp: list_all_iff is_error_line_ascii)

lemma ex_log_lines:
  "splitlines (str ''2024-01-01 ERROR: alignment failed\<newline>Validation done, no errors found\<newline>error: disk full'') =
     [str ''2024-01-01 ERROR: alignment failed'', str ''Validation done, no errors found'',
      str ''error: disk full'']"
  by code_simp

lemma ex_log_ascii:
  "list_all isascii
     [str ''2024-01-01 ERROR: alignment failed'', str ''Validation done, no errors found'',
      str ''error: disk full'']"
  by code_simp

lemma ex_log_errors:
  "filter (is_error_line ascii_tables)
     [str ''2024-01-01 ERROR: alignment failed'', str ''Validation done, no errors found'',
      str ''error: disk full''] = [str ''2024-01-01 ERROR: alignment failed'']"
  by code_simp

lemma ex_nel_lines:
  "splitlines (str ''no errors found'' @ [0x85] @ str ''step 2 failed with error'') =
     [str ''no errors found'', str ''step 2 failed with error'']"
  by code_simp

lemma ex_nel_ascii:
  "list_all isascii [str ''no errors found'', str ''step 2 failed with error'']"
  by code_simp

lemma ex_nel_errors:
  "filter (is_error_line ascii_tables)
     [str ''no errors found'', str ''step 2 failed with error''] =
     [str ''step 2 failed with error'']"
  by code_simp

text \<open>
  C2, as the source has it: the error count of a log that can be read is the number of
  its lines that, in lower case, contain \<open>error\<close>, contain one of the indicators
  \<open> error:\<close> (with the space before it), \<open>error occurred\<close>, \<open>failed\<close>, \<open>exception\<close>,
  \<open>traceback\<close>, \<open>error -\<close>, and contain none of the phrases \<open>no error\<close>,
  \<open>there were no\<close>, \<open>0 error\<close>, \<open>without error\<close>, \<open>error read\<close>, \<open>read error\<close>,
  \<open>no issues\<close>; each such line adds exactly one, and a log that is absent or cannot be
  read has no error. Of the three lines \<open>2024-01-01 ERROR: alignment failed\<close>,
  \<open>Validation done, no errors found\<close> and \<open>error: disk full\<close> the first alone is counted,
  and of the two lines \<open>no errors found\<close> and \<open>step 2 failed with error\<close>, separated by
  the line boundary U+0085, the second is.
\<close>

theorem parse_validation_log_errors:
  assumes "python_tables T"
  shows "error_count (parse_validation_log T (Some (Inr content))) =
     int (length (filter (is_error_line T) (splitlines content))) \<and>
   error_count (validation_line T stats line) =
     error_count stats + (if is_error_line T line then 1 else 0) \<and>
   error_count (parse_validation_log T None) = 0 \<and>
   error_count (parse_validation_log T (Some (Inl e))) = 0 \<and>
   error_count (parse_validation_log T (Some (Inr
     (str ''2024-01-01 ERROR: alignment failed\<newline>Validation done, no errors found\<newline>error: disk full'')))) = 1 \<and>
   error_count (parse_validation_log T (Some (Inr
     (str ''no errors found'' @ [0x85] @ str ''step 2 failed with error'')))) = 1"
proof -
  have "error_count (parse_validation_log T None) = 0"
    "error_count (parse_validation_log T (Some (Inl e))) = 0"
    by (simp_all add: parse_validation_log_def initial_validation_stats_def)
  moreover have "error_count (parse_validation_log T (Some (Inr
     (str ''2024-01-01 ERROR: alignment failed\<newline>Validation done, no errors found\<newline>error: disk full'')))) = 1"
    by (simp only: parse_validation_log_error_count ex_log_lines
        filter_error_lines_ascii [OF assms ex_log_ascii] ex_log_errors) simp
  moreover have "error_count (parse_validation_log T (Some (Inr
     (str ''no errors found'' @ [0x85] @ str ''step 2 failed with error'')))) = 1"
    by (simp only: parse_validation_log_error_count ex_nel_lines
        filter_error_lines_ascii [OF assms ex_nel_ascii] ex_nel_errors) simp
  ultimately show ?thesis
    using parse_validation_log_error_count [of T content]
      validation_line_error_count [of T stats line]
    by blast
qed

theorem parse_validation_log_errors_witness:
  "python_tables ascii_tables \<and>
   error_count (validation_line ascii_tables initial_validation_stats
     (str ''Traceback (most recent call last): error'')) = 1 \<and>
   error_count (parse_validation_log ascii_tables (Some (Inr
     (str ''no errors found'' @ [0x85] @ str ''step 2 failed with error'')))) = 1"
proof -
  have "is_error_line ascii_tables (str ''Traceback (most recent call last): error'')"
    by code_simp
  then show ?thesis
    using parse_validation_log_errors [OF python_tables_ascii,
        of "[]" initial_validation_stats "str ''Traceback (most recent call last): error''"]
      python_tables_ascii
    by (simp add: initial_validation_stats_def)
qed

text \<open>
  C2, as the specification has it, fails: the line \<open>error: disk full\<close> contains
  \<open>error\<close> and the indicator \<open>error:\<close> and no statement that there is no error, and
  it is not counted.
\<close>

theorem error_colon_counterexample:
  "claimed_error_line ascii_tables (str ''error: disk full'') \<and>
   error_count (parse_validation_log ascii_tables (Some (Inr (str ''error: disk full'')))) = 0"
proof -
  have "claimed_error_line ascii_tables (str ''error: disk full'')"
    by code_simp
  moreover have "length (filter (is_error_line ascii_tables)
      (splitlines (str ''error: disk full''))) = 0"
    by code_simp
  ultimately show ?thesis
    by (simp add: parse_validation_log_error_count)
qed

section \<open>Properties of analyze\_oov.py\<close>

subsection \<open>The categories of a word\<close>

lemma contains_single: "contains [c] s = (c \<in> set s)"
  by (induction s) auto

lemma bucket_classify_word:
  "bucket c (classify_word T p word) = bucket c p @ (if tag_rule T c word then [word] else [])"
  by (cases c) (auto simp: classify_word_def Let_def contains_single isupper_def str_eval)

lemma bucket_foldl:
  "bucket c (foldl (classify_word T) p ws) = bucket c p @ filter (tag_rule T c) ws"
  by (induction ws arbitrary: p) (simp_all add: bucket_classify_word)

lemma bucket_analyze: "bucket c (analyze_oov_patterns T ws) = filter (tag_rule T c) ws"
  by (cases c) (simp_all add: analyze_oov_patterns_def bucket_foldl empty_patterns_def)

lemma classify_iff: "c \<in> set (classify T word) \<longleftrightarrow> tag_rule T c word"
  by (cases c) (simp_all add: classify_def bucket_analyze del: tag_rule.simps bucket.simps)

text \<open>On a word of ASCII characters the rules decide as with the ASCII tables.\<close>

lemma tables_ascii:
  assumes "python_tables T" "0 \<le> c" "c < 0x80"
  shows "isdigit T c = isdigit ascii_tables c" "isalnum T c = isalnum ascii_tables c"
    "is_upper T c = is_upper ascii_tables c" "is_lower T c = is_lower ascii_tables c"
    "is_title T c = is_title ascii_tables c"
  using assms by (simp_all add: python_tables_def ascii_tables_def)

lemma list_ex_ascii:
  assumes "isascii word" "\<And>x. 0 \<le> x \<Longrightarrow> x < 0x80 \<Longrightarrow> P x = Q x"
  shows "list_ex P word = list_ex Q word"
  unfolding list_ex_iff
  using assms by (intro bex_cong refl) (simp add: isascii_def list_all_iff)

lemma tag_rule_ascii:
  assumes "python_tables T" "isascii word"
  shows "tag_rule T c word = tag_rule ascii_tables c word"
proof (cases c)
  case Numbers
  then show ?thesis
    using list_ex_ascii [OF assms(2), of "isdigit T" "isdigit ascii_tables"]
    by (simp add: tables_ascii [OF assms(1)])
next
  case Uppercase
  then show ?thesis
    using list_ex_ascii [OF assms(2), of "is_upper T" "is_upper ascii_tables"]
      list_ex_ascii [OF assms(2), of "\<lambda>c. is_lower T c \<or> is_title T c"
        "\<lambda>c. is_lower ascii_tables c \<or> is_title ascii_tables c"]
    by (simp add: tables_ascii [OF assms(1)])
next
  case Special_chars
  then show ?thesis
    using list_ex_ascii [OF assms(2),
        of "\<lambda>c. \<not> isalnum T c \<and> c \<noteq> cp CHR ''-'' \<and> c \<noteq> 0x27"
        "\<lambda>c. \<not> isalnum ascii_tables c \<and> c \<noteq> cp CHR ''-'' \<and> c \<noteq> 0x27"]
    by (simp add: tables_ascii [OF assms(1)])
qed simp_all

lemma ex_ascii_words:
  "isascii (str ''NASA'')" "isascii (str ''I'')" "isascii (str ''co2'')"
  "isascii (str ''don't'')" "isascii (str ''ab'')" "isascii (str ''counterproductive'')"
  "isascii (str ''vocabulary'')"
  by code_simp+

lemma ex_nasa: "tag_rule ascii_tables Uppercase (str ''NASA'')" by code_simp

lemma ex_i: "\<not> tag_rule ascii_tables Uppercase (str ''I'')" by code_simp

lemma ex_co2: "tag_rule ascii_tables Numbers (str ''co2'')" by code_simp

lemma ex_dont: "tag_rule ascii_tables Contractions (str ''don't'')" by code_simp

lemma ex_ab: "tag_rule ascii_tables Short (str ''ab'')" by code_simp

lemma ex_long: "tag_rule ascii_tables Long (str ''counterproductive'')" by code_simp

lemma ex_vocab: "\<not> tag_rule ascii_tables Long (str ''vocabulary'')" by code_simp

lemma ex_a1: "tag_rule ascii_tables Uppercase (str ''A1'')" by code_simp

lemma ex_a1_claimed: "\<not> claimed_uppercase ascii_tables (str ''A1'')" by code_simp

text \<open>
  C4, as the source has it: a word has a tag exactly when the rule of the category holds,
  and the list of a category is the list of the words that satisfy its rule, in their
  order. The rules are those of the specification, a digit being a character of
  \<open>isdigit\<close> and an alphanumeric character one of \<open>isalnum\<close>, but for \<open>uppercase\<close>, whose
  rule is that of \<open>isupper\<close>: at least one uppercase letter, no lowercase or titlecase
  letter, and more than one character. NASA is tagged \<open>uppercase\<close> and I is not, co2 is
  tagged \<open>numbers\<close>, don't is tagged \<open>contractions\<close>, ab is tagged \<open>short\<close>,
  counterproductive is tagged \<open>long\<close> and vocabulary is not.
\<close>

theorem classify_rules:
  assumes "python_tables T"
  shows "(c \<in> set (classify T word) \<longleftrightarrow> tag_rule T c word) \<and>
   bucket c (analyze_oov_patterns T ws) = filter (tag_rule T c) ws \<and>
   Uppercase \<in> set (classify T (str ''NASA'')) \<and>
   Uppercase \<notin> set (classify T (str ''I'')) \<and>
   Numbers \<in> set (classify T (str ''co2'')) \<and>
   Contractions \<in> set (classify T (str ''don't'')) \<and>
   Short \<in> set (classify T (str ''ab'')) \<and>
   Long \<in> set (classify T (str ''counterproductive'')) \<and>
   Long \<notin> set (classify T (str ''vocabulary''))"
  by (simp only: classify_iff bucket_analyze tag_rule_ascii [OF assms] ex_ascii_words
      ex_nasa ex_i ex_co2 ex_dont ex_ab ex_long ex_vocab simp_thms)

theorem classify_rules_witness:
  "python_tables ascii_tables \<and>
   (Uppercase \<in> set (classify ascii_tables (str ''CO2''))) =
     tag_rule ascii_tables Uppercase (str ''CO2'') \<and>
   uppercase (analyze_oov_patterns ascii_tables [str ''CO2'', str ''co2'', str ''NASA'']) =
     [str ''CO2'', str ''NASA'']"
proof -
  have "filter (tag_rule ascii_tables Uppercase) [str ''CO2'', str ''co2'', str ''NASA''] =
      [str ''CO2'', str ''NASA'']"
    by code_simp
  then show ?thesis
    using classify_rules [OF python_tables_ascii, of Uppercase "str ''CO2''"
        "[str ''CO2'', str ''co2'', str ''NASA'']"] python_tables_ascii
    by simp
qed

text \<open>
  C4, as the specification has it, fails: A1 is tagged \<open>uppercase\<close>, and its character 1
  is not uppercase.
\<close>

theorem uppercase_counterexample:
  "Uppercase \<in> set (classify ascii_tables (str ''A1'')) \<and>
   \<not> claimed_uppercase ascii_tables (str ''A1'')"
  by (simp only: classify_iff ex_a1 ex_a1_claimed simp_thms)

subsection \<open>The words extracted from a log\<close>

lemma match_at_word:
  "match_at T literal s = Some (w, rest) \<Longrightarrow> w \<noteq> [] \<and> list_all (isword T) w"
  by (auto simp: match_at_def Let_def list_all_iff split: option.splits if_splits
      dest: set_takeWhileD)

lemma findall_all_words:
  "list_all (\<lambda>w. w \<noteq> [] \<and> list_all (isword T) w) (findall T literal s)"
proof (induction T literal s rule: findall.induct)
  case (1 T literal s)
  show ?case
  proof (cases "match_at T literal s")
    case None
    with 1 show ?thesis
      by (subst findall.simps) (auto split: list.splits)
  next
    case (Some m)
    obtain v rest where m: "m = (v, rest)"
      by (cases m)
    have "list_all (\<lambda>w. w \<noteq> [] \<and> list_all (isword T) w) (findall T literal rest)"
      using "1.IH"(2) [OF Some m [symmetric]] .
    with Some m match_at_word [of T literal s v rest] show ?thesis
      by (subst findall.simps) simp
  qed
qed

lemma findall_words:
  "w \<in> set (findall T literal s) \<Longrightarrow> w \<noteq> [] \<and> list_all (isword T) w"
  using findall_all_words [of T literal s] by (simp add: list_all_iff)

lemma extract_words:
  "w \<in> set (extract_oov_words_from_log T log_file) \<Longrightarrow> w \<noteq> [] \<and> list_all (isword T) w"
  by (auto simp: extract_oov_words_from_log_def log_patterns_def
      split: option.splits sum.splits dest: findall_words)

lemma isalnum_not_punct:
  assumes "python_tables T"
  shows "\<not> isalnum T (cp CHR ''-'')" "\<not> isalnum T 0x27" "\<not> isalnum T (cp CHR ''_'')"
  using assms by (simp_all add: python_tables_def ascii_isalnum_def ascii_isdigit_def
      ascii_isupper_def ascii_islower_def cp_def)

lemma isalnum_not_space: "python_tables T \<Longrightarrow> isalnum T c \<Longrightarrow> \<not> isspace c"
  by (auto simp: python_tables_def)

lemma isword_chars:
  assumes "python_tables T" "isword T c"
  shows "c \<noteq> cp CHR ''-'' \<and> c \<noteq> 0x27 \<and> \<not> isspace c"
proof (cases "c = cp CHR ''_''")
  case True
  then show ?thesis
    by (simp add: cp_def isspace_def)
next
  case False
  with assms(2) have "isalnum T c"
    by (simp add: isword_def)
  with isalnum_not_punct [OF assms(1)] isalnum_not_space [OF assms(1)] show ?thesis
    by auto
qed

lemma isword_special:
  "python_tables T \<Longrightarrow> isword T c \<Longrightarrow> (\<not> isalnum T c) = (c = cp CHR ''_'')"
  using isalnum_not_punct(3) [of T] by (auto simp: isword_def)

lemma word_tags:
  assumes "python_tables T" "list_all (isword T) w"
  shows "\<not> tag_rule T Hyphenated w" "\<not> tag_rule T Contractions w"
    "tag_rule T Special_chars w = (cp CHR ''_'' \<in> set w)" "\<not> list_ex isspace w"
proof -
  from assms(2) have w: "\<And>c. c \<in> set w \<Longrightarrow> isword T c"
    by (simp add: list_all_iff)
  show "\<not> tag_rule T Hyphenated w" "\<not> tag_rule T Contractions w" "\<not> list_ex isspace w"
    using w isword_chars [OF assms(1)] by (auto simp: list_ex_iff)
  show "tag_rule T Special_chars w = (cp CHR ''_'' \<in> set w)"
    using w isword_chars [OF assms(1)] isword_special [OF assms(1)]
    by (auto simp: list_ex_iff)
qed

text \<open>On a log of ASCII characters the patterns match as with the ASCII tables.\<close>

lemma isascii_Cons: "isascii (c # s) = (0 \<le> c \<and> c < 0x80 \<and> isascii s)"
  by (simp add: isascii_def)

lemma isascii_dropWhile: "isascii s \<Longrightarrow> isascii (dropWhile P s)"
  by (auto simp: isascii_def list_all_iff dest: set_dropWhileD)

lemma isword_ascii:
  "python_tables T \<Longrightarrow> 0 \<le> c \<Longrightarrow> c < 0x80 \<Longrightarrow> isword T c = isword ascii_tables c"
  by (simp add: isword_def tables_ascii)

lemma match_literal_ascii:
  "python_tables T \<Longrightarrow> isascii literal \<Longrightarrow> isascii s \<Longrightarrow>
    match_literal T literal s = match_literal ascii_tables literal s"
proof (induction T literal s rule: match_literal.induct)
  case (3 T p ps c cs)
  from "3.prems" have r: "0 \<le> p" "p < 0x80" "0 \<le> c" "c < 0x80" "isascii ps" "isascii cs"
    by (simp_all add: isascii_Cons)
  with "3.prems"(1) have "ignorecase T p c = ignorecase ascii_tables p c"
    by (simp add: python_tables_def ascii_tables_def)
  with 3 r show ?case
    by simp
qed simp_all

lemma match_literal_isascii:
  "match_literal T literal s = Some r \<Longrightarrow> isascii s \<Longrightarrow> isascii r"
  by (induction T literal s rule: match_literal.induct)
     (auto simp: isascii_Cons split: if_splits)

lemma match_at_ascii:
  assumes "python_tables T" "isascii literal" "isascii s"
  shows "match_at T literal s = match_at ascii_tables literal s"
proof (cases "match_literal ascii_tables literal s")
  case None
  then show ?thesis
    by (simp add: match_at_def match_literal_ascii [OF assms])
next
  case (Some r)
  then have "isascii (dropWhile isspace r)"
    using assms(3) by (intro isascii_dropWhile) (rule match_literal_isascii)
  then have a: "\<And>x. x \<in> set (dropWhile isspace r) \<Longrightarrow> isword T x = isword ascii_tables x"
    using assms(1) by (simp add: isascii_def list_all_iff isword_ascii)
  have "takeWhile (isword T) (dropWhile isspace r) =
      takeWhile (isword ascii_tables) (dropWhile isspace r)"
    by (rule takeWhile_cong) (simp_all add: a)
  moreover have "dropWhile (isword T) (dropWhile isspace r) =
      dropWhile (isword ascii_tables) (dropWhile isspace r)"
    by (rule dropWhile_cong) (simp_all add: a)
  ultimately show ?thesis
    using Some by (simp add: match_at_def match_literal_ascii [OF assms] Let_def)
qed

lemma match_at_isascii:
  assumes "match_at T literal s = Some (w, rest)" "isascii s"
  shows "isascii rest"
proof -
  from assms(1) obtain r where r: "match_literal T literal s = Some r"
    and rest: "rest = dropWhile (isword T) (dropWhile isspace r)"
    by (auto simp: match_at_def Let_def split: option.splits if_splits)
  from match_literal_isascii [OF r assms(2)] show ?thesis
    unfolding rest by (intro isascii_dropWhile)
qed

lemma findall_ascii:
  assumes "python_tables T" "isascii literal"
  shows "isascii s \<Longrightarrow> findall T literal s = findall ascii_tables literal s"
proof (induction s rule: length_induct)
  case (1 s)
  have m: "match_at T literal s = match_at ascii_tables literal s"
    using assms "1.prems" by (rule match_at_ascii)
  show ?case
  proof (cases "match_at ascii_tables literal s")
    case None
    show ?thesis
    proof (cases s)
      case Nil
      with None m show ?thesis
        by (subst findall.simps, subst (2) findall.simps) simp
    next
      case (Cons c cs)
      with "1.prems" have "isascii cs"
        by (simp add: isascii_Cons)
      with "1.IH" Cons have "findall T literal cs = findall ascii_tables literal cs"
        by simp
      with None m Cons show ?thesis
        by (subst findall.simps, subst (2) findall.simps) simp
    qed
  next
    case (Some v)
    obtain w rest where v: "v = (w, rest)"
      by (cases v)
    from Some v have "length rest < length s" "isascii rest"
      using match_at_shorter [of ascii_tables literal s w rest]
        match_at_isascii [of ascii_tables literal s w rest] "1.prems"
      by simp_all
    with "1.IH" have "findall T literal rest = findall ascii_tables literal rest"
      by simp
    with Some v m show ?thesis
      by (subst findall.simps, subst (2) findall.simps) simp
  qed
qed

lemma log_patterns_ascii: "list_all isascii log_patterns"
  by code_simp

lemma extract_ascii:
  assumes "python_tables T" "isascii content"
  shows "extract_oov_words_from_log T (Some (Inr content)) =
    extract_oov_words_from_log ascii_tables (Some (Inr content))"
  using log_patterns_ascii
  by (simp add: extract_oov_words_from_log_def log_patterns_def
      findall_ascii [OF assms(1) _ assms(2)])

lemma ex_dont_ascii: "isascii (str ''OOV: don't'')"
  by code_simp

lemma ex_dont_log:
  "extract_oov_words_from_log ascii_tables (Some (Inr (str ''OOV: don't''))) = [str ''don'']"
  by code_simp

lemma ex_foo_bar:
  "extract_oov_words_from_log ascii_tables (Some (Inr (str ''OOV: foo_bar''))) =
     [str ''foo_bar'']"
  by code_simp

lemma ex_foo_bar_special: "tag_rule ascii_tables Special_chars (str ''foo_bar'')"
  by code_simp

text \<open>
  C10, as the source has it: every word extracted from a log is not empty and consists
  of word characters (alphanumeric characters and the underscore), so it holds no
  hyphen, no apostrophe and no whitespace, is never tagged \<open>hyphenated\<close> or
  \<open>contractions\<close>, and is tagged \<open>special_chars\<close> exactly when it holds an underscore; the
  entry don't of a log is extracted as don.
\<close>

theorem extracted_words:
  assumes "python_tables T"
  shows "(\<forall>w \<in> set (extract_oov_words_from_log T log_file).
      w \<noteq> [] \<and> list_all (isword T) w \<and> \<not> list_ex isspace w \<and>
      cp CHR ''-'' \<notin> set w \<and> 0x27 \<notin> set w \<and>
      Hyphenated \<notin> set (classify T w) \<and> Contractions \<notin> set (classify T w) \<and>
      (Special_chars \<in> set (classify T w) \<longleftrightarrow> cp CHR ''_'' \<in> set w)) \<and>
   extract_oov_words_from_log T (Some (Inr (str ''OOV: don't''))) = [str ''don'']"
proof -
  have "extract_oov_words_from_log T (Some (Inr (str ''OOV: don't''))) = [str ''don'']"
    by (simp only: extract_ascii [OF assms ex_dont_ascii] ex_dont_log)
  moreover have "w \<noteq> [] \<and> list_all (isword T) w \<and> \<not> list_ex isspace w \<and>
      cp CHR ''-'' \<notin> set w \<and> 0x27 \<notin> set w \<and>
      Hyphenated \<notin> set (classify T w) \<and> Contractions \<notin> set (classify T w) \<and>
      (Special_chars \<in> set (classify T w) \<longleftrightarrow> cp CHR ''_'' \<in> set w)"
    if "w \<in> set (extract_oov_words_from_log T log_file)" for w
    using extract_words [OF that] word_tags [OF assms, of w]
    by (simp add: classify_iff del: tag_rule.simps) simp
  ultimately show ?thesis
    by blast
qed

theorem extracted_words_witness:
  "python_tables ascii_tables \<and>
   str ''don'' \<in> set (extract_oov_words_from_log ascii_tables (Some (Inr (str ''OOV: don't'')))) \<and>
   list_all (isword ascii_tables) (str ''don'') \<and>
   Hyphenated \<notin> set (classify ascii_tables (str ''don'')) \<and>
   Contractions \<notin> set (classify ascii_tables (str ''don'')) \<and>
   Special_chars \<notin> set (classify ascii_tables (str ''don''))"
proof -
  have mem: "str ''don'' \<in>
      set (extract_oov_words_from_log ascii_tables (Some (Inr (str ''OOV: don't''))))"
    by (simp add: ex_dont_log)
  have u: "cp CHR ''_'' \<notin> set (str ''don'')"
    by (simp add: str_eval)
  from extracted_words [OF python_tables_ascii, of "Some (Inr (str ''OOV: don't''))",
      THEN conjunct1, THEN bspec, OF mem] mem u python_tables_ascii
  show ?thesis
    by blast
qed

text \<open>
  C10, as stated, fails: the word foo_bar is extracted whole from a log, and its
  underscore, which is not alphanumeric, tags it \<open>special_chars\<close>.
\<close>

theorem underscore_counterexample:
  "extract_oov_words_from_log ascii_tables (Some (Inr (str ''OOV: foo_bar''))) =
     [str ''foo_bar''] \<and>
   Special_chars \<in> set (classify ascii_tables (str ''foo_bar''))"
  by (simp only: classify_iff ex_foo_bar ex_foo_bar_special simp_thms)

subsection \<open>The frequencies of the per-utterance OOV file\<close>

lemma dict_get_empty: "dict_get [] k dflt = dflt"
  by (simp add: dict_get_def)

lemma map_of_dict_set: "map_of (dict_set d k v) = (map_of d)(k \<mapsto> v)"
  by (induction d) auto

lemma dict_get_set:
  "dict_get (dict_set d k v) k' dflt = (if k' = k then v else dict_get d k' dflt)"
  by (simp add: dict_get_def map_of_dict_set)

lemma split_ws_aux_clean:
  "w \<in> set (split_ws_aux cur s) \<Longrightarrow> \<not> list_ex isspace cur \<Longrightarrow>
     w \<noteq> [] \<and> \<not> list_ex isspace w"
proof (induction cur s arbitrary: w rule: split_ws_aux.induct)
  case (1 cur)
  then show ?case
    by (cases "cur = []") (simp_all add: list_ex_iff)
next
  case (2 cur c cs)
  show ?case
  proof (cases "isspace c")
    case True
    show ?thesis
    proof (cases "cur = []")
      case True
      with \<open>isspace c\<close> "2.prems" "2.IH"(1) [of w] show ?thesis
        by simp
    next
      case False
      with \<open>isspace c\<close> "2.prems" have "w = rev cur \<or> w \<in> set (split_ws_aux [] cs)"
        by simp
      with False \<open>isspace c\<close> "2.prems"(2) "2.IH"(2) [of w] show ?thesis
        by (auto simp: list_ex_iff)
    qed
  next
    case False
    with "2.prems" have "w \<in> set (split_ws_aux (c # cur) cs)" "\<not> list_ex isspace (c # cur)"
      by simp_all
    with False "2.IH"(3) [of w] show ?thesis
      by simp
  qed
qed

lemma split_ws_clean: "w \<in> set (split_ws s) \<Longrightarrow> w \<noteq> [] \<and> \<not> list_ex isspace w"
  using split_ws_aux_clean [of w "[]" s] by (simp add: split_ws_def)

lemma strip_clean: "\<not> list_ex isspace w \<Longrightarrow> strip w = w"
proof -
  assume a: "\<not> list_ex isspace w"
  then have "dropWhile isspace w = w"
    by (cases w) (auto simp: list_ex_iff)
  moreover from a have "dropWhile isspace (rev w) = rev w"
    by (cases "rev w") (auto simp: list_ex_iff)
  ultimately show ?thesis
    by (simp add: strip_def strip_chars_def)
qed

lemma split_ws_aux_spaces:
  "list_all isspace t \<Longrightarrow> split_ws_aux cur t = (if cur = [] then [] else [rev cur])"
  by (induction t arbitrary: cur) auto

lemma split_ws_aux_append_spaces:
  "list_all isspace t \<Longrightarrow> split_ws_aux cur (s @ t) = split_ws_aux cur s"
  by (induction cur s rule: split_ws_aux.induct) (auto simp: split_ws_aux_spaces)

lemma split_ws_aux_dropWhile: "split_ws_aux [] (dropWhile isspace s) = split_ws_aux [] s"
  by (induction s) auto

lemma split_ws_strip: "split_ws (strip s) = split_ws s"
proof -
  let ?d = "dropWhile isspace s"
  have "?d = rev (dropWhile isspace (rev ?d)) @ rev (takeWhile isspace (rev ?d))"
    by (metis rev_append rev_rev_ident takeWhile_dropWhile_id)
  moreover have "list_all isspace (rev (takeWhile isspace (rev ?d)))"
    by (auto simp: list_all_iff dest: set_takeWhileD)
  ultimately have "split_ws_aux [] ?d = split_ws_aux [] (rev (dropWhile isspace (rev ?d)))"
    using split_ws_aux_append_spaces by metis
  then show ?thesis
    by (simp add: split_ws_def strip_def strip_chars_def split_ws_aux_dropWhile)
qed

lemma count_word_clean:
  assumes "w \<noteq> []" "\<not> list_ex isspace w"
  shows "dict_get (count_word d w) k 0 = dict_get d k 0 + (if k = w then 1 else 0)"
  using assms by (simp add: count_word_def strip_clean dict_get_set)

lemma foldl_count_word:
  "(\<And>w. w \<in> set ws \<Longrightarrow> w \<noteq> [] \<and> \<not> list_ex isspace w) \<Longrightarrow>
     dict_get (foldl count_word d ws) k 0 = dict_get d k 0 + int (count_list ws k)"
proof (induction ws arbitrary: d)
  case Nil
  show ?case by simp
next
  case (Cons w ws)
  have "dict_get (foldl count_word (count_word d w) ws) k 0 =
      dict_get (count_word d w) k 0 + int (count_list ws k)"
    using Cons.prems by (intro Cons.IH) simp
  with Cons.prems [of w] show ?case
    by (simp add: count_word_clean)
qed

lemma utterance_line_eq:
  "utterance_line d line = foldl count_word d (payload_words line)"
proof (cases "(cp CHR '':'') \<in> set line")
  case True
  then show ?thesis
    by (simp add: utterance_line_def payload_words_def contains_single split_once_mem
        split_ws_strip Let_def str_eval)
next
  case False
  then show ?thesis
    by (simp add: utterance_line_def payload_words_def contains_single str_eval)
qed

lemma utterance_line_count:
  "dict_get (utterance_line d line) k 0 = dict_get d k 0 + int (count_list (payload_words line) k)"
  unfolding utterance_line_eq
  by (rule foldl_count_word) (auto simp: payload_words_def dest: split_ws_clean split: if_splits)

lemma foldl_utterance_line:
  "dict_get (foldl utterance_line d lines) k 0 =
     dict_get d k 0 + int (count_list (concat (map payload_words lines)) k)"
  by (induction lines arbitrary: d) (simp_all add: utterance_line_count)

lemma read_utterance_oovs_count:
  "dict_get (read_utterance_oovs (Read_lines content err)) k 0 =
     int (count_list (concat (map payload_words (iter_lines content))) k)"
  by (simp add: read_utterance_oovs_def foldl_utterance_line dict_get_empty)

lemma ex_payload: "payload_words (str ''utt001.wav: cat cat dog'') = [str ''cat'', str ''cat'', str ''dog'']"
  by code_simp

lemma ex_payload_colon: "payload_words (str ''utt002.wav: a:b c'') = [str ''a:b'', str ''c'']"
  by code_simp

lemma ex_iter_lines:
  "iter_lines (str ''a\<newline>b'' @ [0x0D, 0x0A] @ str ''c'' @ [0x0D] @ str ''d'') =
     [str ''a\<newline>'', str ''b\<newline>'', str ''c\<newline>'', str ''d'']"
  by code_simp

lemma ex_file:
  "foldl utterance_line [] (iter_lines example_utterance_oovs) =
     [(str ''cat'', 3), (str ''dog'', 2), (str ''bird'', 1), (str ''emu'', 1)]"
  by code_simp

text \<open>
  C7: a line of the per-utterance OOV file adds, to the count of every word, the number
  of times the word occurs among the whitespace-separated words after the first colon of
  the line (later colons stay in the words), a line without a colon changes nothing, and
  the frequency of a word after reading the file, to its end or to the point where the
  reading raises, is the number of its occurrences in the payloads of the lines read; a
  file that is absent or cannot be opened gives the empty map. The line
  \<open>utt001.wav: cat cat dog\<close> adds 2 to the count of cat and 1 to that of dog, and the
  file of four lines, one without a colon, gives cat 3, dog 2, bird 1 and emu 1.
\<close>

theorem utterance_oovs_frequencies:
  "dict_get (utterance_line d line) w 0 =
     dict_get d w 0 + int (count_list (payload_words line) w) \<and>
   (cp CHR '':'' \<notin> set line \<longrightarrow> utterance_line d line = d) \<and>
   dict_get (snd (read_oov_files oovs_file (Read_lines content err))) w 0 =
     int (count_list (concat (map payload_words (iter_lines content))) w) \<and>
   snd (read_oov_files oovs_file Absent) = [] \<and>
   snd (read_oov_files oovs_file (Open_error e)) = [] \<and>
   iter_lines (str ''a\<newline>b'' @ [0x0D, 0x0A] @ str ''c'' @ [0x0D] @ str ''d'') =
     [str ''a\<newline>'', str ''b\<newline>'', str ''c\<newline>'', str ''d''] \<and>
   snd (read_oov_files oovs_file (Read_lines example_utterance_oovs err)) =
     [(str ''cat'', 3), (str ''dog'', 2), (str ''bird'', 1), (str ''emu'', 1)] \<and>
   payload_words (str ''utt002.wav: a:b c'') = [str ''a:b'', str ''c''] \<and>
   dict_get (utterance_line d (str ''utt001.wav: cat cat dog'')) (str ''cat'') 0 =
     dict_get d (str ''cat'') 0 + 2 \<and>
   dict_get (utterance_line d (str ''utt001.wav: cat cat dog'')) (str ''dog'') 0 =
     dict_get d (str ''dog'') 0 + 1"
proof -
  have "cp CHR '':'' \<notin> set line \<longrightarrow> utterance_line d line = d"
    by (simp add: utterance_line_eq payload_words_def)
  moreover have "dict_get (snd (read_oov_files oovs_file (Read_lines content err))) w 0 =
      int (count_list (concat (map payload_words (iter_lines content))) w)"
    by (simp add: read_oov_files_def read_utterance_oovs_count)
  moreover have "snd (read_oov_files oovs_file Absent) = []"
    "snd (read_oov_files oovs_file (Open_error e)) = []"
    by (simp_all add: read_oov_files_def read_utterance_oovs_def)
  moreover have "snd (read_oov_files oovs_file (Read_lines example_utterance_oovs err)) =
      [(str ''cat'', 3), (str ''dog'', 2), (str ''bird'', 1), (str ''emu'', 1)]"
    by (simp add: read_oov_files_def read_utterance_oovs_def ex_file)
  moreover have "dict_get (utterance_line d (str ''utt001.wav: cat cat dog'')) (str ''cat'') 0 =
      dict_get d (str ''cat'') 0 + 2"
    by (simp only: utterance_line_count ex_payload) (simp add: str_eval)
  moreover have "dict_get (utterance_line d (str ''utt001.wav: cat cat dog'')) (str ''dog'') 0 =
      dict_get d (str ''dog'') 0 + 1"
    by (simp only: utterance_line_count ex_payload) (simp add: str_eval)
  ultimately show ?thesis
    using utterance_line_count [of d line w] ex_payload_colon ex_iter_lines by blast
qed

theorem utterance_oovs_frequencies_witness:
  "cp CHR '':'' \<notin> set (str ''no colon here'') \<and>
   utterance_line [(str ''cat'', 4)] (str ''no colon here'') = [(str ''cat'', 4)] \<and>
   dict_get (utterance_line [(str ''cat'', 4)] (str ''utt001.wav: cat cat dog'')) (str ''cat'') 0 = 6"
proof -
  have n: "cp CHR '':'' \<notin> set (str ''no colon here'')"
    by (simp add: str_eval)
  have g: "dict_get [(str ''cat'', 4)] (str ''cat'') 0 = (4::int)"
    by (simp add: dict_get_def)
  from utterance_oovs_frequencies [of "[(str ''cat'', 4)]" "str ''no colon here''" "str ''cat''"
      Absent "[]" None OSError] n
  have "utterance_line [(str ''cat'', 4)] (str ''no colon here'') = [(str ''cat'', 4)]"
    by blast
  moreover from utterance_oovs_frequencies [of "[(str ''cat'', 4)]" "str ''x''" "str ''cat''"
      Absent "[]" None OSError] g
  have "dict_get (utterance_line [(str ''cat'', 4)] (str ''utt001.wav: cat cat dog'')) (str ''cat'') 0 = 6"
    by simp
  ultimately show ?thesis
    using n by blast
qed

subsection \<open>The ranking of the frequencies\<close>

lemma sorted_reverse_mset: "mset (sorted_reverse key xs) = mset xs"
  by (simp add: sorted_reverse_def)

lemma sorted_reverse_desc: "sorted_wrt (\<lambda>a b. key b \<le> key a) (sorted_reverse key xs)"
proof -
  have "sorted_wrt (\<lambda>a b. key a \<le> key b) (sort_key key (rev xs))"
    using sorted_sort_key [of key "rev xs"] by (simp add: sorted_map)
  then show ?thesis
    by (simp add: sorted_reverse_def sorted_wrt_rev)
qed

lemma sorted_reverse_stable:
  "filter (\<lambda>x. key x = k) (sorted_reverse key xs) = filter (\<lambda>x. key x = k) xs"
proof -
  have "filter (\<lambda>x. key x = k) (sorted_reverse key xs) =
      rev (filter (\<lambda>x. key x = k) (sort_key key (rev xs)))"
    by (simp add: sorted_reverse_def rev_filter)
  also have "\<dots> = rev (filter (\<lambda>x. key x = k) (rev xs))"
    by (simp only: sort_key_stable)
  also have "\<dots> = filter (\<lambda>x. key x = k) xs"
    by (simp add: rev_filter)
  finally show ?thesis .
qed

lemma dict_set_keys:
  "map fst (dict_set d k v) = (if k \<in> set (map fst d) then map fst d else map fst d @ [k])"
  by (induction d) force+

lemma most_frequent_report:
  "word_frequencies \<noteq> [] \<Longrightarrow>
     map_option most_frequent (print_oov_report T ws word_frequencies) =
       Some (take 20 (sorted_reverse snd word_frequencies))"
  by (simp add: print_oov_report_def)

lemma ex_ranking:
  "map fst (sorted_reverse snd [(str ''cat'', 3), (str ''dog'', 3), (str ''bird'', 1)]) =
     [str ''cat'', str ''dog'', str ''bird'']"
  by (simp add: sorted_reverse_def)

lemma ex_insertion:
  "foldl count_word [] [str ''cat'', str ''dog'', str ''bird'', str ''dog'', str ''cat'', str ''cat'', str ''dog''] =
     [(str ''cat'', 3), (str ''dog'', 3), (str ''bird'', 1)]"
  by code_simp

text \<open>
  C6: the most frequent words of the report are the first 20 entries of the frequency map
  sorted by descending count; the sorted list is a rearrangement of the entries of the map
  in which the entries of one count keep the order they have in the map, which is the
  order of their first insertion (an assignment to a new word appends it, one to a known
  word leaves the order). The words cat, dog, bird, dog, cat, cat, dog give the map cat 3,
  dog 3, bird 1 in that order, ranked cat, dog, bird.
\<close>

theorem frequency_ranking:
  "(word_frequencies \<noteq> [] \<longrightarrow>
      map_option most_frequent (print_oov_report T ws word_frequencies) =
        Some (take 20 (sorted_reverse snd word_frequencies))) \<and>
   sorted_wrt (\<lambda>a b. snd b \<le> snd a) (sorted_reverse snd word_frequencies) \<and>
   mset (sorted_reverse snd word_frequencies) = mset word_frequencies \<and>
   filter (\<lambda>e. snd e = n) (sorted_reverse snd word_frequencies) =
     filter (\<lambda>e. snd e = n) word_frequencies \<and>
   map fst (dict_set word_frequencies k v) =
     (if k \<in> set (map fst word_frequencies) then map fst word_frequencies
      else map fst word_frequencies @ [k]) \<and>
   foldl count_word [] [str ''cat'', str ''dog'', str ''bird'', str ''dog'', str ''cat'', str ''cat'', str ''dog''] =
     [(str ''cat'', 3), (str ''dog'', 3), (str ''bird'', 1)] \<and>
   map fst (sorted_reverse snd [(str ''cat'', 3), (str ''dog'', 3), (str ''bird'', 1)]) =
     [str ''cat'', str ''dog'', str ''bird'']"
  using most_frequent_report [of word_frequencies T ws]
    sorted_reverse_desc [of snd word_frequencies]
    sorted_reverse_mset [of snd word_frequencies]
    sorted_reverse_stable [of snd n word_frequencies]
    dict_set_keys [of word_frequencies k v] ex_insertion ex_ranking
  by blast

theorem frequency_ranking_witness:
  "[(str ''a'', 1), (str ''b'', 2), (str ''c'', 1)] \<noteq> ([] :: int dict) \<and>
   map_option most_frequent (print_oov_report ascii_tables [] [(str ''a'', 1), (str ''b'', 2), (str ''c'', 1)]) =
     Some [(str ''b'', 2), (str ''a'', 1), (str ''c'', 1)]"
proof -
  have n: "[(str ''a'', 1), (str ''b'', 2), (str ''c'', 1)] \<noteq> ([] :: int dict)"
    by simp
  have "take 20 (sorted_reverse snd [(str ''a'', 1::int), (str ''b'', 2), (str ''c'', 1)]) =
      [(str ''b'', 2), (str ''a'', 1), (str ''c'', 1)]"
    by (simp add: sorted_reverse_def)
  with frequency_ranking [of "[(str ''a'', 1), (str ''b'', 2), (str ''c'', 1)]" ascii_tables
      "[]" 0 "[]" 0] n
  show ?thesis
    by simp
qed

subsection \<open>The runs of the analysis\<close>

lemma enumerates_remdups: "enumerates remdups"
  by (simp add: enumerates_def)

lemma enumerates_rev_remdups: "enumerates (rev \<circ> remdups)"
  by (simp add: enumerates_def)

lemma ex_run1:
  "map_option pattern_analysis
     (main ascii_tables remdups Absent Absent
        (Some (Some (Inr (str ''OOV: b2\<newline>OOV: a1''))))) =
   Some [(str ''Numbers/Digits'', 2, [str ''b2'', str ''a1''])]"
  by code_simp

lemma ex_run2:
  "map_option pattern_analysis
     (main ascii_tables (rev \<circ> remdups) Absent Absent
        (Some (Some (Inr (str ''OOV: b2\<newline>OOV: a1''))))) =
   Some [(str ''Numbers/Digits'', 2, [str ''a1'', str ''b2''])]"
  by code_simp

text \<open>
  C5 asks that two runs on unchanged files print the same report, the example words of
  the pattern summary included. The source does not: on a log with the words b2 and a1
  and no OOV file, a run whose \<open>list(set(...))\<close> enumerates the two words as b2, a1 and
  a run whose \<open>list(set(...))\<close> enumerates them as a1, b2 print different example words
  for the category of the numbers.
\<close>

theorem main_examples_follow_set_order:
  "enumerates remdups \<and> enumerates (rev \<circ> remdups) \<and>
   map_option pattern_analysis
     (main ascii_tables remdups Absent Absent
        (Some (Some (Inr (str ''OOV: b2\<newline>OOV: a1''))))) =
     Some [(str ''Numbers/Digits'', 2, [str ''b2'', str ''a1''])] \<and>
   map_option pattern_analysis
     (main ascii_tables (rev \<circ> remdups) Absent Absent
        (Some (Some (Inr (str ''OOV: b2\<newline>OOV: a1''))))) =
     Some [(str ''Numbers/Digits'', 2, [str ''a1'', str ''b2''])] \<and>
   main ascii_tables remdups Absent Absent (Some (Some (Inr (str ''OOV: b2\<newline>OOV: a1'')))) \<noteq>
   main ascii_tables (rev \<circ> remdups) Absent Absent
     (Some (Some (Inr (str ''OOV: b2\<newline>OOV: a1''))))"
proof -
  have "main ascii_tables remdups Absent Absent
      (Some (Some (Inr (str ''OOV: b2\<newline>OOV: a1'')))) \<noteq>
    main ascii_tables (rev \<circ> remdups) Absent Absent
      (Some (Some (Inr (str ''OOV: b2\<newline>OOV: a1''))))"
  proof
    assume "main ascii_tables remdups Absent Absent
        (Some (Some (Inr (str ''OOV: b2\<newline>OOV: a1'')))) =
      main ascii_tables (rev \<circ> remdups) Absent Absent
        (Some (Some (Inr (str ''OOV: b2\<newline>OOV: a1''))))"
    then have "map_option pattern_analysis
        (main ascii_tables remdups Absent Absent
          (Some (Some (Inr (str ''OOV: b2\<newline>OOV: a1''))))) =
      map_option pattern_analysis
        (main ascii_tables (rev \<circ> remdups) Absent Absent
          (Some (Some (Inr (str ''OOV: b2\<newline>OOV: a1'')))))"
      by simp
    then show False
      by (simp only: ex_run1 ex_run2) (simp add: str_eval)
  qed
  then show ?thesis
    using enumerates_remdups enumerates_rev_remdups ex_run1 ex_run2 by blast
qed

end
